theory Spec2Isabelle
  imports Complex_Main
begin

section \<open>The two loop forms of the template\<close>

text \<open>
  The script \<^verbatim>\<open>bin/genEvalSpecializations.py\<close> renders one Jinja2 template
  (\<^verbatim>\<open>specializationTemplate\<close>) with \<^verbatim>\<open>numDerivs = -1\<close> for the generic class
  \<^verbatim>\<open>Evaluation<ValueT, numDerivs>\<close> and with \<^verbatim>\<open>numDerivs = 1 .. maxDerivs\<close> for the
  specializations. Wherever the template says \<^verbatim>\<open>{% if numDerivs < 0 %}\<close> the generic class
  gets a C++ loop and the specialization gets the statements that a Jinja2
  \<^verbatim>\<open>{% for i in range(a, b) %}\<close> emits, one per index, executed one after the other.

  \<open>for_loop a b body\<close> is the C++ loop \<^verbatim>\<open>for (int i = a; i < b; ++i) body\<close>.
  The bounds are at most \<^verbatim>\<open>length_ = size + 1\<close>, a valid \<^verbatim>\<open>int\<close>, so the counter
  never overflows and is a natural number here.
\<close>

function for_loop :: "nat \<Rightarrow> nat \<Rightarrow> (nat \<Rightarrow> 's \<Rightarrow> 's) \<Rightarrow> 's \<Rightarrow> 's" where
  "for_loop i n body s = (if i < n then for_loop (i + 1) n body (body i s) else s)"
  by pat_completeness auto
termination
  by (relation "measure (\<lambda>(i, n, body, s). n - i)") auto

declare for_loop.simps [simp del]

text \<open>Python's \<^verbatim>\<open>range(a, b)\<close> on integers.\<close>

definition py_range :: "int \<Rightarrow> int \<Rightarrow> int list" where
  "py_range a b = [a..b - 1]"

text \<open>
  \<open>jinja_for is stmt\<close> is the run of the statements that
  \<^verbatim>\<open>{% for i in is %} stmt {% endfor %}\<close> writes into the generated file: the first
  index's statement runs first.
\<close>

primrec jinja_for :: "int list \<Rightarrow> (int \<Rightarrow> 's \<Rightarrow> 's) \<Rightarrow> 's \<Rightarrow> 's" where
  "jinja_for [] stmt s = s"
| "jinja_for (i # is) stmt s = jinja_for is stmt (stmt i s)"

section \<open>The class \<open>Evaluation\<close>\<close>

text \<open>
  The only member is \<^verbatim>\<open>std::array<ValueT, length_> data_\<close>. Isabelle refuses names that
  end with an underscore, so \<^verbatim>\<open>data_\<close>, \<^verbatim>\<open>length_\<close>, \<^verbatim>\<open>valuepos_\<close>, \<^verbatim>\<open>dstart_\<close> and
  \<^verbatim>\<open>dend_\<close> end with a prime here, as do \<^verbatim>\<open>size\<close>, \<^verbatim>\<open>value\<close> and \<^verbatim>\<open>divide\<close>, which
  clash with names of HOL.

  \<^verbatim>\<open>ValueT\<close> is a type variable \<open>'a\<close> whose operations \<open>0\<close>, \<open>1\<close>, \<open>+\<close>, \<open>-\<close>, \<open>*\<close>, \<open>/\<close>
  come from the syntactic type classes, with no law assumed about them unless a theorem
  says so in its sort. \<^verbatim>\<open>RhsValueType\<close> is taken to be \<^verbatim>\<open>ValueT\<close>, and the literals
  \<^verbatim>\<open>0.0\<close> and \<^verbatim>\<open>1.0\<close> are \<open>0\<close> and \<open>1\<close> of \<open>'a\<close>.

  Every operation takes \<open>numDerivs\<close>, the value the template was rendered with, and \<open>N\<close>,
  the template argument of the generic class, which only the generic rendering
  (\<open>numDerivs < 0\<close>) reads.
\<close>

record 'a Evaluation =
  data' :: "'a list"

datatype error = AssertionFailed

definition size' :: "int \<Rightarrow> nat \<Rightarrow> nat" where
  "size' numDerivs N = (if numDerivs < 0 then N else nat numDerivs)"

definition length' :: "int \<Rightarrow> nat \<Rightarrow> nat" where
  "length' numDerivs N = size' numDerivs N + 1"

definition valuepos' :: nat where
  "valuepos' = 0"

definition dstart' :: nat where
  "dstart' = 1"

definition dend' :: "int \<Rightarrow> nat \<Rightarrow> nat" where
  "dend' numDerivs N = length' numDerivs N"

text \<open>
  The storage of an object always has \<^verbatim>\<open>length_\<close> slots; this is the invariant that the
  array type gives.
\<close>

definition well_formed :: "int \<Rightarrow> nat \<Rightarrow> 'a Evaluation \<Rightarrow> bool" where
  "well_formed numDerivs N e \<longleftrightarrow> length (data' e) = length' numDerivs N"

subsection \<open>Accessors\<close>

definition value' :: "'a Evaluation \<Rightarrow> 'a" where
  "value' this = data' this ! valuepos'"

definition setValue :: "'a Evaluation \<Rightarrow> 'a \<Rightarrow> 'a Evaluation" where
  "setValue this val = this\<lparr>data' := (data' this)[valuepos' := val]\<rparr>"

definition derivative :: "int \<Rightarrow> nat \<Rightarrow> 'a Evaluation \<Rightarrow> int \<Rightarrow> error + 'a" where
  "derivative numDerivs N this varIdx =
     (if 0 \<le> varIdx \<and> varIdx < int (size' numDerivs N)
      then Inr (data' this ! (dstart' + nat varIdx))
      else Inl AssertionFailed)"

definition setDerivative ::
  "int \<Rightarrow> nat \<Rightarrow> 'a Evaluation \<Rightarrow> int \<Rightarrow> 'a \<Rightarrow> error + 'a Evaluation" where
  "setDerivative numDerivs N this varIdx derVal =
     (if 0 \<le> varIdx \<and> varIdx < int (size' numDerivs N)
      then Inr (this\<lparr>data' := (data' this)[dstart' + nat varIdx := derVal]\<rparr>)
      else Inl AssertionFailed)"

subsection \<open>Constructors\<close>

text \<open>
  \<^verbatim>\<open>Evaluation() : data_()\<close> value-initialises the array: every slot is zero.
\<close>

definition Evaluation_default :: "int \<Rightarrow> nat \<Rightarrow> 'a::zero Evaluation" where
  "Evaluation_default numDerivs N = \<lparr>data' = replicate (length' numDerivs N) 0\<rparr>"

text \<open>
  The other constructors of the class leave \<^verbatim>\<open>data_\<close> out of their initialiser lists, so
  their bodies start from storage of indeterminate content: the argument \<open>uninit\<close>.
\<close>

definition Evaluation_copy ::
  "int \<Rightarrow> nat \<Rightarrow> 'a Evaluation \<Rightarrow> 'a Evaluation \<Rightarrow> 'a Evaluation" where
  "Evaluation_copy numDerivs N uninit other =
     (if numDerivs < 0 then \<lparr>data' = data' other\<rparr>
      else uninit\<lparr>data' :=
        jinja_for (py_range 0 (numDerivs + 1))
          (\<lambda>i d. d[nat i := data' other ! nat i]) (data' uninit)\<rparr>)"

definition clearDerivatives :: "int \<Rightarrow> nat \<Rightarrow> 'a::zero Evaluation \<Rightarrow> 'a Evaluation" where
  "clearDerivatives numDerivs N this =
     (if numDerivs < 0 then
        this\<lparr>data' :=
          for_loop dstart' (dend' numDerivs N) (\<lambda>i d. d[i := 0]) (data' this)\<rparr>
      else
        this\<lparr>data' :=
          jinja_for (py_range 1 (numDerivs + 1)) (\<lambda>i d. d[nat i := 0]) (data' this)\<rparr>)"

definition Evaluation_const ::
  "int \<Rightarrow> nat \<Rightarrow> 'a::zero Evaluation \<Rightarrow> 'a \<Rightarrow> 'a Evaluation" where
  "Evaluation_const numDerivs N uninit c =
     clearDerivatives numDerivs N (setValue uninit c)"

definition Evaluation_var ::
  "int \<Rightarrow> nat \<Rightarrow> 'a::{zero,one} Evaluation \<Rightarrow> 'a \<Rightarrow> int \<Rightarrow> error + 'a Evaluation" where
  "Evaluation_var numDerivs N uninit c varPos =
     (if 0 \<le> varPos \<and> varPos < int (size' numDerivs N) then
        (let this = clearDerivatives numDerivs N (setValue uninit c)
         in Inr (this\<lparr>data' := (data' this)[nat (varPos + int dstart') := 1]\<rparr>))
      else Inl AssertionFailed)"

definition createVariable ::
  "int \<Rightarrow> nat \<Rightarrow> 'a::{zero,one} Evaluation \<Rightarrow> 'a \<Rightarrow> int \<Rightarrow> error + 'a Evaluation" where
  "createVariable numDerivs N uninit val varPos =
     Evaluation_var numDerivs N uninit val varPos"

definition createConstant ::
  "int \<Rightarrow> nat \<Rightarrow> 'a::zero Evaluation \<Rightarrow> 'a \<Rightarrow> 'a Evaluation" where
  "createConstant numDerivs N uninit val = Evaluation_const numDerivs N uninit val"

definition copyDerivatives ::
  "int \<Rightarrow> nat \<Rightarrow> 'a Evaluation \<Rightarrow> 'a Evaluation \<Rightarrow> 'a Evaluation" where
  "copyDerivatives numDerivs N this other =
     (if numDerivs < 0 then
        this\<lparr>data' :=
          for_loop dstart' (dend' numDerivs N)
            (\<lambda>i d. d[i := data' other ! i]) (data' this)\<rparr>
      else
        this\<lparr>data' :=
          jinja_for (py_range 1 (numDerivs + 1))
            (\<lambda>i d. d[nat i := data' other ! nat i]) (data' this)\<rparr>)"

subsection \<open>Compound assignment\<close>

text \<open>
  \<open>other\<close> is a \<^verbatim>\<open>const Evaluation&\<close>; the model reads the content it has at the call.
  The code reads the same content even when \<open>other\<close> is the object itself: the scalars
  \<^verbatim>\<open>u\<close>, \<^verbatim>\<open>v\<close>, \<^verbatim>\<open>v_vv\<close>, \<^verbatim>\<open>u_vv\<close> are copies taken before the first write, and the
  statement for index \<open>i\<close> reads \<^verbatim>\<open>other.data_[i]\<close> when slot \<open>i\<close> has not been written
  yet (a loop that starts at \<^verbatim>\<open>dstart_\<close> never reads the value slot of \<open>other\<close>).
\<close>

definition op_plus_eq ::
  "int \<Rightarrow> nat \<Rightarrow> 'a::plus Evaluation \<Rightarrow> 'a Evaluation \<Rightarrow> 'a Evaluation" where
  "op_plus_eq numDerivs N this other =
     (if numDerivs < 0 then
        this\<lparr>data' :=
          for_loop 0 (length' numDerivs N)
            (\<lambda>i d. d[i := d ! i + data' other ! i]) (data' this)\<rparr>
      else
        this\<lparr>data' :=
          jinja_for (py_range 0 (numDerivs + 1))
            (\<lambda>i d. d[nat i := d ! nat i + data' other ! nat i]) (data' this)\<rparr>)"

definition op_plus_eq_scalar :: "'a::plus Evaluation \<Rightarrow> 'a \<Rightarrow> 'a Evaluation" where
  "op_plus_eq_scalar this other =
     this\<lparr>data' := (data' this)[valuepos' := data' this ! valuepos' + other]\<rparr>"

definition op_minus_eq ::
  "int \<Rightarrow> nat \<Rightarrow> 'a::minus Evaluation \<Rightarrow> 'a Evaluation \<Rightarrow> 'a Evaluation" where
  "op_minus_eq numDerivs N this other =
     (if numDerivs < 0 then
        this\<lparr>data' :=
          for_loop 0 (length' numDerivs N)
            (\<lambda>i d. d[i := d ! i - data' other ! i]) (data' this)\<rparr>
      else
        this\<lparr>data' :=
          jinja_for (py_range 0 (numDerivs + 1))
            (\<lambda>i d. d[nat i := d ! nat i - data' other ! nat i]) (data' this)\<rparr>)"

definition op_minus_eq_scalar :: "'a::minus Evaluation \<Rightarrow> 'a \<Rightarrow> 'a Evaluation" where
  "op_minus_eq_scalar this other =
     this\<lparr>data' := (data' this)[valuepos' := data' this ! valuepos' - other]\<rparr>"

definition op_times_eq ::
  "int \<Rightarrow> nat \<Rightarrow> 'a::{plus,times} Evaluation \<Rightarrow> 'a Evaluation \<Rightarrow> 'a Evaluation" where
  "op_times_eq numDerivs N this other =
     (let u = value' this;
          v = value' other;
          d0 = (data' this)[valuepos' := data' this ! valuepos' * v]
      in if numDerivs < 0 then
           this\<lparr>data' :=
             for_loop dstart' (dend' numDerivs N)
               (\<lambda>i d. d[i := d ! i * v + data' other ! i * u]) d0\<rparr>
         else
           this\<lparr>data' :=
             jinja_for (py_range 1 (numDerivs + 1))
               (\<lambda>i d. d[nat i := d ! nat i * v + data' other ! nat i * u]) d0\<rparr>)"

text \<open>
  A scalar argument is a \<^verbatim>\<open>const RhsValueType&\<close>. \<^verbatim>\<open>operator+=\<close>, \<^verbatim>\<open>operator-=\<close>,
  \<^verbatim>\<open>operator/=\<close>, \<^verbatim>\<open>operator=\<close> and \<^verbatim>\<open>setValue\<close> read it once, before their first write,
  so they take its value. \<^verbatim>\<open>operator*=\<close> reads \<^verbatim>\<open>other\<close> again at every slot, after the
  writes to the slots before it, so its argument is the reference: to a scalar outside
  the object, or to a slot of the object itself, as in \<^verbatim>\<open>x *= x.value()\<close>.
\<close>

datatype 'a scalar_ref = Outside 'a | Slot nat

definition deref :: "'a scalar_ref \<Rightarrow> 'a list \<Rightarrow> 'a" where
  "deref r d = (case r of Outside c \<Rightarrow> c | Slot k \<Rightarrow> d ! k)"

definition op_times_eq_scalar ::
  "int \<Rightarrow> nat \<Rightarrow> 'a::times Evaluation \<Rightarrow> 'a scalar_ref \<Rightarrow> 'a Evaluation" where
  "op_times_eq_scalar numDerivs N this other =
     (if numDerivs < 0 then
        this\<lparr>data' :=
          for_loop 0 (length' numDerivs N)
            (\<lambda>i d. d[i := d ! i * deref other d]) (data' this)\<rparr>
      else
        this\<lparr>data' :=
          jinja_for (py_range 0 (numDerivs + 1))
            (\<lambda>i d. d[nat i := d ! nat i * deref other d]) (data' this)\<rparr>)"

definition op_div_eq ::
  "int \<Rightarrow> nat \<Rightarrow> 'a::{one,minus,times,inverse} Evaluation \<Rightarrow> 'a Evaluation \<Rightarrow> 'a Evaluation"
  where
  "op_div_eq numDerivs N this other =
     (let v_vv = 1 / value' other;
          u_vv = value' this * v_vv * v_vv;
          d0 = (data' this)[valuepos' := data' this ! valuepos' * v_vv]
      in if numDerivs < 0 then
           this\<lparr>data' :=
             for_loop dstart' (dend' numDerivs N)
               (\<lambda>i d. d[i := d ! i * v_vv - data' other ! i * u_vv]) d0\<rparr>
         else
           this\<lparr>data' :=
             jinja_for (py_range 1 (numDerivs + 1))
               (\<lambda>i d. d[nat i := d ! nat i * v_vv - data' other ! nat i * u_vv]) d0\<rparr>)"

definition op_div_eq_scalar ::
  "int \<Rightarrow> nat \<Rightarrow> 'a::{one,times,inverse} Evaluation \<Rightarrow> 'a \<Rightarrow> 'a Evaluation" where
  "op_div_eq_scalar numDerivs N this other =
     (let tmp = 1 / other
      in if numDerivs < 0 then
           this\<lparr>data' :=
             for_loop 0 (length' numDerivs N) (\<lambda>i d. d[i := d ! i * tmp]) (data' this)\<rparr>
         else
           this\<lparr>data' :=
             jinja_for (py_range 0 (numDerivs + 1))
               (\<lambda>i d. d[nat i := d ! nat i * tmp]) (data' this)\<rparr>)"

text \<open>The static \<^verbatim>\<open>divide(a, b)\<close>: a constant over an Evaluation.\<close>

definition divide' ::
  "int \<Rightarrow> nat \<Rightarrow> 'a::{zero,one,uminus,times,inverse} \<Rightarrow> 'a Evaluation \<Rightarrow> 'a Evaluation"
  where
  "divide' numDerivs N a b =
     (let result0 = Evaluation_default numDerivs N;
          tmp = 1 / value' b;
          result = setValue result0 (a * tmp);
          df_dg = (- value' result) * tmp
      in if numDerivs < 0 then
           result\<lparr>data' :=
             for_loop dstart' (dend' numDerivs N)
               (\<lambda>i d. d[i := df_dg * data' b ! i]) (data' result)\<rparr>
         else
           result\<lparr>data' :=
             jinja_for (py_range 1 (numDerivs + 1))
               (\<lambda>i d. d[nat i := df_dg * data' b ! nat i]) (data' result)\<rparr>)"

subsection \<open>Binary and unary operators\<close>

text \<open>
  Each of them copy-constructs \<^verbatim>\<open>result\<close> from \<^verbatim>\<open>*this\<close> (on the storage \<open>uninit\<close>) and
  applies the compound assignment to it. \<^verbatim>\<open>result\<close> is a new local object, so a scalar
  argument never refers to one of its slots.
\<close>

definition op_plus ::
  "int \<Rightarrow> nat \<Rightarrow> 'a::plus Evaluation \<Rightarrow> 'a Evaluation \<Rightarrow> 'a Evaluation \<Rightarrow> 'a Evaluation"
  where
  "op_plus numDerivs N uninit this other =
     op_plus_eq numDerivs N (Evaluation_copy numDerivs N uninit this) other"

definition op_plus_scalar ::
  "int \<Rightarrow> nat \<Rightarrow> 'a::plus Evaluation \<Rightarrow> 'a Evaluation \<Rightarrow> 'a \<Rightarrow> 'a Evaluation" where
  "op_plus_scalar numDerivs N uninit this other =
     op_plus_eq_scalar (Evaluation_copy numDerivs N uninit this) other"

definition op_minus ::
  "int \<Rightarrow> nat \<Rightarrow> 'a::minus Evaluation \<Rightarrow> 'a Evaluation \<Rightarrow> 'a Evaluation \<Rightarrow> 'a Evaluation"
  where
  "op_minus numDerivs N uninit this other =
     op_minus_eq numDerivs N (Evaluation_copy numDerivs N uninit this) other"

definition op_minus_scalar ::
  "int \<Rightarrow> nat \<Rightarrow> 'a::minus Evaluation \<Rightarrow> 'a Evaluation \<Rightarrow> 'a \<Rightarrow> 'a Evaluation" where
  "op_minus_scalar numDerivs N uninit this other =
     op_minus_eq_scalar (Evaluation_copy numDerivs N uninit this) other"

definition op_neg :: "int \<Rightarrow> nat \<Rightarrow> 'a::{zero,uminus} Evaluation \<Rightarrow> 'a Evaluation" where
  "op_neg numDerivs N this =
     (let result = Evaluation_default numDerivs N
      in if numDerivs < 0 then
           result\<lparr>data' :=
             for_loop 0 (length' numDerivs N)
               (\<lambda>i d. d[i := - (data' this ! i)]) (data' result)\<rparr>
         else
           result\<lparr>data' :=
             jinja_for (py_range 0 (numDerivs + 1))
               (\<lambda>i d. d[nat i := - (data' this ! nat i)]) (data' result)\<rparr>)"

definition op_times ::
  "int \<Rightarrow> nat \<Rightarrow> 'a::{plus,times} Evaluation \<Rightarrow> 'a Evaluation \<Rightarrow> 'a Evaluation
     \<Rightarrow> 'a Evaluation" where
  "op_times numDerivs N uninit this other =
     op_times_eq numDerivs N (Evaluation_copy numDerivs N uninit this) other"

definition op_times_scalar ::
  "int \<Rightarrow> nat \<Rightarrow> 'a::times Evaluation \<Rightarrow> 'a Evaluation \<Rightarrow> 'a \<Rightarrow> 'a Evaluation" where
  "op_times_scalar numDerivs N uninit this other =
     op_times_eq_scalar numDerivs N (Evaluation_copy numDerivs N uninit this)
       (Outside other)"

definition op_div ::
  "int \<Rightarrow> nat \<Rightarrow> 'a::{one,minus,times,inverse} Evaluation \<Rightarrow> 'a Evaluation \<Rightarrow> 'a Evaluation
     \<Rightarrow> 'a Evaluation" where
  "op_div numDerivs N uninit this other =
     op_div_eq numDerivs N (Evaluation_copy numDerivs N uninit this) other"

definition op_div_scalar ::
  "int \<Rightarrow> nat \<Rightarrow> 'a::{one,times,inverse} Evaluation \<Rightarrow> 'a Evaluation \<Rightarrow> 'a \<Rightarrow> 'a Evaluation"
  where
  "op_div_scalar numDerivs N uninit this other =
     op_div_eq_scalar numDerivs N (Evaluation_copy numDerivs N uninit this) other"

subsection \<open>Assignment\<close>

definition op_assign_scalar ::
  "int \<Rightarrow> nat \<Rightarrow> 'a::zero Evaluation \<Rightarrow> 'a \<Rightarrow> 'a Evaluation" where
  "op_assign_scalar numDerivs N this other =
     clearDerivatives numDerivs N (setValue this other)"

definition op_assign ::
  "int \<Rightarrow> nat \<Rightarrow> 'a Evaluation \<Rightarrow> 'a Evaluation \<Rightarrow> 'a Evaluation" where
  "op_assign numDerivs N this other =
     (if numDerivs < 0 then
        this\<lparr>data' :=
          for_loop 0 (length' numDerivs N) (\<lambda>i d. d[i := data' other ! i]) (data' this)\<rparr>
      else
        this\<lparr>data' :=
          jinja_for (py_range 0 (numDerivs + 1))
            (\<lambda>i d. d[nat i := data' other ! nat i]) (data' this)\<rparr>)"

subsection \<open>Comparisons\<close>

text \<open>
  \<^verbatim>\<open>operator==(const Evaluation&)\<close> is a loop with an early return, the same text in both
  renderings of the template. The scalars' \<^verbatim>\<open>!=\<close> is HOL's inequality, so no scalar
  differs from itself: a floating-point value that is not a number is outside the model.
\<close>

function eq_loop :: "nat \<Rightarrow> nat \<Rightarrow> 'a list \<Rightarrow> 'a list \<Rightarrow> bool" where
  "eq_loop idx n d d_other =
     (if idx < n then
        (if d ! idx \<noteq> d_other ! idx then False else eq_loop (idx + 1) n d d_other)
      else True)"
  by pat_completeness auto
termination
  by (relation "measure (\<lambda>(idx, n, d, d_other). n - idx)") auto

declare eq_loop.simps [simp del]

definition op_eq_scalar :: "'a Evaluation \<Rightarrow> 'a \<Rightarrow> bool" where
  "op_eq_scalar this other \<longleftrightarrow> value' this = other"

definition op_eq :: "int \<Rightarrow> nat \<Rightarrow> 'a Evaluation \<Rightarrow> 'a Evaluation \<Rightarrow> bool" where
  "op_eq numDerivs N this other \<longleftrightarrow>
     eq_loop 0 (length' numDerivs N) (data' this) (data' other)"

definition op_neq :: "int \<Rightarrow> nat \<Rightarrow> 'a Evaluation \<Rightarrow> 'a Evaluation \<Rightarrow> bool" where
  "op_neq numDerivs N this other \<longleftrightarrow> \<not> op_eq numDerivs N this other"

definition op_gt_scalar :: "'a::ord Evaluation \<Rightarrow> 'a \<Rightarrow> bool" where
  "op_gt_scalar this other \<longleftrightarrow> value' this > other"

definition op_gt :: "'a::ord Evaluation \<Rightarrow> 'a Evaluation \<Rightarrow> bool" where
  "op_gt this other \<longleftrightarrow> value' this > value' other"

definition op_lt_scalar :: "'a::ord Evaluation \<Rightarrow> 'a \<Rightarrow> bool" where
  "op_lt_scalar this other \<longleftrightarrow> value' this < other"

definition op_lt :: "'a::ord Evaluation \<Rightarrow> 'a Evaluation \<Rightarrow> bool" where
  "op_lt this other \<longleftrightarrow> value' this < value' other"

definition op_ge_scalar :: "'a::ord Evaluation \<Rightarrow> 'a \<Rightarrow> bool" where
  "op_ge_scalar this other \<longleftrightarrow> value' this \<ge> other"

definition op_ge :: "'a::ord Evaluation \<Rightarrow> 'a Evaluation \<Rightarrow> bool" where
  "op_ge this other \<longleftrightarrow> value' this \<ge> value' other"

definition op_le_scalar :: "'a::ord Evaluation \<Rightarrow> 'a \<Rightarrow> bool" where
  "op_le_scalar this other \<longleftrightarrow> value' this \<le> other"

definition op_le :: "'a::ord Evaluation \<Rightarrow> 'a Evaluation \<Rightarrow> bool" where
  "op_le this other \<longleftrightarrow> value' this \<le> value' other"

subsection \<open>Free operators with the scalar on the left\<close>

text \<open>
  They are templates over \<^verbatim>\<open>numVars\<close>, written once in the generic file, and call the
  members of whichever class \<^verbatim>\<open>Evaluation<ValueType, numVars>\<close> names.
\<close>

definition scalar_lt :: "'a::ord \<Rightarrow> 'a Evaluation \<Rightarrow> bool" where
  "scalar_lt a b \<longleftrightarrow> op_gt_scalar b a"

definition scalar_gt :: "'a::ord \<Rightarrow> 'a Evaluation \<Rightarrow> bool" where
  "scalar_gt a b \<longleftrightarrow> op_lt_scalar b a"

definition scalar_le :: "'a::ord \<Rightarrow> 'a Evaluation \<Rightarrow> bool" where
  "scalar_le a b \<longleftrightarrow> op_ge_scalar b a"

definition scalar_ge :: "'a::ord \<Rightarrow> 'a Evaluation \<Rightarrow> bool" where
  "scalar_ge a b \<longleftrightarrow> op_le_scalar b a"

definition scalar_neq :: "'a \<Rightarrow> 'a Evaluation \<Rightarrow> bool" where
  "scalar_neq a b \<longleftrightarrow> a \<noteq> value' b"

definition scalar_plus ::
  "int \<Rightarrow> nat \<Rightarrow> 'a::plus Evaluation \<Rightarrow> 'a \<Rightarrow> 'a Evaluation \<Rightarrow> 'a Evaluation" where
  "scalar_plus numDerivs N uninit a b =
     op_plus_eq_scalar (Evaluation_copy numDerivs N uninit b) a"

definition scalar_minus ::
  "int \<Rightarrow> nat \<Rightarrow> 'a::{zero,minus} Evaluation \<Rightarrow> 'a \<Rightarrow> 'a Evaluation \<Rightarrow> 'a Evaluation" where
  "scalar_minus numDerivs N uninit a b =
     op_minus_eq numDerivs N (Evaluation_const numDerivs N uninit a) b"

definition scalar_div ::
  "int \<Rightarrow> nat \<Rightarrow> 'a::{zero,one,uminus,times,inverse} \<Rightarrow> 'a Evaluation \<Rightarrow> 'a Evaluation"
  where
  "scalar_div numDerivs N a b = divide' numDerivs N a b"

definition scalar_times ::
  "int \<Rightarrow> nat \<Rightarrow> 'a::times Evaluation \<Rightarrow> 'a \<Rightarrow> 'a Evaluation \<Rightarrow> 'a Evaluation" where
  "scalar_times numDerivs N uninit a b =
     op_times_eq_scalar numDerivs N (Evaluation_copy numDerivs N uninit b) (Outside a)"

section \<open>The generator script\<close>

text \<open>
  The top level of \<^verbatim>\<open>bin/genEvalSpecializations.py\<close>. What the script takes from outside
  is a record: the two Jinja2 renderings (the text of \<^verbatim>\<open>specializationTemplate\<close> for a
  given \<^verbatim>\<open>numDerivs\<close> and \<^verbatim>\<open>scriptName\<close>; the text of \<^verbatim>\<open>includeSpecializationsTemplate\<close>
  before and after its \<^verbatim>\<open>{% for fileName in fileNames %}\<close> loop), Python's \<^verbatim>\<open>int()\<close> on
  a string (\<open>None\<close> where it raises \<^verbatim>\<open>ValueError\<close>), and which paths \<^verbatim>\<open>open(path, "w")\<close>
  can open.
\<close>

record env =
  render_specialization :: "int \<Rightarrow> string \<Rightarrow> string"
  include_head :: "string \<Rightarrow> string"
  include_tail :: string
  py_int :: "string \<Rightarrow> int option"
  writable :: "string \<Rightarrow> bool"

datatype gen_error = ValueError | IndexError | IOError string

text \<open>
  The state of a run: the file system (path to content), the lines printed, and the
  script's global list \<^verbatim>\<open>fileNames\<close>.
\<close>

record gen_state =
  files :: "string \<rightharpoonup> string"
  stdout :: "string list"
  fileNames :: "string list"

text \<open>\<^verbatim>\<open>"%d" % n\<close>: the decimal digits of an integer, with a minus sign when negative.\<close>

definition digit :: "nat \<Rightarrow> char" where
  "digit n = ''0123456789'' ! n"

fun str_nat :: "nat \<Rightarrow> string" where
  "str_nat n = (if n < 10 then [digit n] else str_nat (n div 10) @ [digit (n mod 10)])"

declare str_nat.simps [simp del]

definition str_int :: "int \<Rightarrow> string" where
  "str_int i = (if i < 0 then CHR ''-'' # str_nat (nat (- i)) else str_nat (nat i))"

text \<open>\<^verbatim>\<open>os.path.basename\<close>: what follows the last slash.\<close>

definition basename :: "string \<Rightarrow> string" where
  "basename p = rev (takeWhile (\<lambda>c. c \<noteq> CHR ''/'') (rev p))"

definition print :: "string \<Rightarrow> gen_state \<Rightarrow> gen_state" where
  "print line s = s\<lparr>stdout := stdout s @ [line]\<rparr>"

text \<open>
  \<^verbatim>\<open>f = open(fileName, "w"); f.write(fileContents); f.close()\<close>: the file holds exactly
  \<open>fileContents\<close> afterwards, or \<^verbatim>\<open>open\<close> raises and the run stops there.
\<close>

definition write_file ::
  "env \<Rightarrow> string \<Rightarrow> string \<Rightarrow> gen_state \<Rightarrow> gen_error option \<times> gen_state" where
  "write_file e fileName fileContents s =
     (if writable e fileName
      then (None, s\<lparr>files := (files s)(fileName \<mapsto> fileContents)\<rparr>)
      else (Some (IOError fileName), s))"

text \<open>
  The rendering of \<^verbatim>\<open>includeSpecializationsTemplate\<close>: one \<^verbatim>\<open>#include <fileName>\<close> line
  per element of \<^verbatim>\<open>fileNames\<close>, in the order of the list.
\<close>

definition render_includeSpecializations :: "env \<Rightarrow> string list \<Rightarrow> string \<Rightarrow> string" where
  "render_includeSpecializations e names scriptName =
     include_head e scriptName
     @ concat (map (\<lambda>fileName. ''#include <'' @ fileName @ ''>'' @ [CHR 0x0A]) names)
     @ include_tail e"

definition specialization_fileName :: "int \<Rightarrow> string" where
  "specialization_fileName numDerivs =
     ''opm/material/densead/Evaluation'' @ str_int numDerivs @ ''.hpp''"

text \<open>The body of \<^verbatim>\<open>for numDerivs in range(1, maxDerivs + 1)\<close>, over the indices left.\<close>

fun gen_specializations ::
  "env \<Rightarrow> string \<Rightarrow> int list \<Rightarrow> gen_state \<Rightarrow> gen_error option \<times> gen_state" where
  "gen_specializations e scriptName [] s = (None, s)"
| "gen_specializations e scriptName (numDerivs # rest) s =
     (let s1 = print (''Generating specialization for '' @ str_int numDerivs
                      @ '' derivatives'') s;
          fileName = specialization_fileName numDerivs;
          s2 = s1\<lparr>fileNames := fileNames s1 @ [fileName]\<rparr>;
          fileContents = render_specialization e numDerivs scriptName
      in case write_file e fileName fileContents s2 of
           (Some err, s3) \<Rightarrow> (Some err, s3)
         | (None, s3) \<Rightarrow> gen_specializations e scriptName rest s3)"

definition generate ::
  "env \<Rightarrow> int \<Rightarrow> string list \<Rightarrow> gen_state \<Rightarrow> gen_error option \<times> gen_state" where
  "generate e maxDerivs argv s0 =
     (let s1 = print ''Generating generic template class'' s0;
          fileName = ''opm/material/densead/Evaluation.hpp''
      in case argv of
           [] \<Rightarrow> (Some IndexError, s1)
         | script # args \<Rightarrow>
             (let scriptName = basename script;
                  fileContents = render_specialization e (- 1) scriptName
              in case write_file e fileName fileContents s1 of
                   (Some err, s2) \<Rightarrow> (Some err, s2)
                 | (None, s2) \<Rightarrow>
                     (case gen_specializations e scriptName
                             (py_range 1 (maxDerivs + 1)) s2 of
                        (Some err, s3) \<Rightarrow> (Some err, s3)
                      | (None, s3) \<Rightarrow>
                          write_file e ''opm/material/densead/EvaluationSpecializations.hpp''
                            (render_includeSpecializations e (fileNames s3) scriptName) s3)))"

text \<open>
  The whole run on the argument vector and the file system it finds: \<^verbatim>\<open>maxDerivs\<close> is
  \<open>12\<close> unless there is exactly one argument, and \<^verbatim>\<open>fileNames\<close> starts empty.
\<close>

definition main ::
  "env \<Rightarrow> string list \<Rightarrow> (string \<rightharpoonup> string) \<Rightarrow> gen_error option \<times> gen_state" where
  "main e argv fs =
     (let s0 = \<lparr>files = fs, stdout = [], fileNames = []\<rparr>
      in case (if length argv = 2 then py_int e (argv ! 1) else Some 12) of
           None \<Rightarrow> (Some ValueError, s0)
         | Some maxDerivs \<Rightarrow> generate e maxDerivs argv s0)"

text \<open>
  The paths that a run with bound \<open>maxDerivs\<close> writes, in the order it writes them. This
  list is not in the script; the claim about the generated file set is stated with it.
\<close>

definition output_files :: "int \<Rightarrow> string list" where
  "output_files maxDerivs =
     ''opm/material/densead/Evaluation.hpp''
     # map specialization_fileName (py_range 1 (maxDerivs + 1))
     @ [''opm/material/densead/EvaluationSpecializations.hpp'']"

section \<open>Each loop as a fold\<close>

lemma for_loop_fold: "for_loop a b body s = fold body [a..<b] s"
proof (induction a b body s rule: for_loop.induct)
  case (1 i n body s)
  show ?case
  proof (cases "i < n")
    case True
    then have "[i..<n] = i # [i + 1..<n]" by (simp add: upt_conv_Cons)
    with True 1 show ?thesis by (simp add: for_loop.simps[of i n])
  next
    case False
    then show ?thesis by (simp add: for_loop.simps[of i n])
  qed
qed

lemma jinja_for_fold: "jinja_for xs stmt s = fold stmt xs s"
  by (induction xs arbitrary: s) simp_all

lemma py_range_upt: "py_range (int a) (int b) = map int [a..<b]"
proof (induction b)
  case 0
  then show ?case by (simp add: py_range_def)
next
  case (Suc b)
  show ?case
  proof (cases "a \<le> b")
    case True
    then have "[int a..int (Suc b) - 1] = [int a..int b - 1] @ [int b]"
      using upto_rec2[of "int a" "int b"] by simp
    with Suc True show ?thesis by (simp add: py_range_def)
  next
    case False
    then show ?thesis by (simp add: py_range_def)
  qed
qed

lemma jinja_for_range:
  "jinja_for (py_range (int a) (int b)) (\<lambda>i. body (nat i)) s = fold body [a..<b] s"
  by (simp add: jinja_for_fold py_range_upt fold_map comp_def)

lemma unroll: "0 \<le> numDerivs \<Longrightarrow>
  jinja_for (py_range (int a) (numDerivs + 1)) (\<lambda>i. body (nat i)) s
   = for_loop a (nat numDerivs + 1) body s"
proof -
  assume "0 \<le> numDerivs"
  then have "int (nat numDerivs + 1) = numDerivs + 1" by simp
  then show ?thesis
    using jinja_for_range[of a "nat numDerivs + 1" body s]
    by (simp only: for_loop_fold)
qed

lemma fold_upd_length:
  "length (fold (\<lambda>i d. d[i := f i (d ! i)]) xs d) = length d"
  by (induction xs arbitrary: d) simp_all

lemma fold_upd_nth:
  "j < length d \<Longrightarrow>
   fold (\<lambda>i d. d[i := f i (d ! i)]) [a..<b] d ! j
     = (if a \<le> j \<and> j < b then f j (d ! j) else d ! j)"
proof (induction b)
  case 0
  then show ?case by simp
next
  case (Suc b)
  show ?case
  proof (cases "a \<le> b")
    case True
    with Suc show ?thesis
      by (auto simp: fold_upd_length nth_list_update less_Suc_eq)
  next
    case False
    then have "\<not> (a \<le> j \<and> j < Suc b)" by arith
    moreover from False have "[a..<Suc b] = []" by simp
    ultimately show ?thesis by auto
  qed
qed

lemma length'_nonneg: "0 \<le> numDerivs \<Longrightarrow> length' numDerivs N = nat numDerivs + 1"
  by (simp add: length'_def size'_def)

lemma forms_agree:
  "(if numDerivs < 0 then for_loop a (length' numDerivs N) body s
    else jinja_for (py_range (int a) (numDerivs + 1)) (\<lambda>i. body (nat i)) s)
   = fold body [a..<length' numDerivs N] s"
proof (cases "numDerivs < 0")
  case True
  then show ?thesis by (simp add: for_loop_fold)
next
  case False
  then have "0 \<le> numDerivs" by simp
  from unroll[OF this, where a=a and body=body and s=s] False show ?thesis
    by (simp add: for_loop_fold length'_nonneg)
qed

lemma forms_agree_data:
  "(if numDerivs < 0 then e\<lparr>data' := for_loop a (length' numDerivs N) body s\<rparr>
    else e\<lparr>data' := jinja_for (py_range (int a) (numDerivs + 1)) (\<lambda>i. body (nat i)) s\<rparr>)
   = \<lparr>data' = fold body [a..<length' numDerivs N] s\<rparr>"
  using forms_agree[where numDerivs=numDerivs and a=a and N=N and body=body and s=s]
  by (cases "numDerivs < 0") simp_all

lemma forms_from0:
  "(if numDerivs < 0 then e\<lparr>data' := for_loop 0 (length' numDerivs N) body s\<rparr>
    else e\<lparr>data' := jinja_for (py_range 0 (numDerivs + 1)) (\<lambda>i. body (nat i)) s\<rparr>)
   = \<lparr>data' = fold body [0..<length' numDerivs N] s\<rparr>"
  using forms_agree[where a=0 and numDerivs=numDerivs and N=N and body=body and s=s]
  by (cases "numDerivs < 0") simp_all

lemma forms_from1:
  "(if numDerivs < 0 then e\<lparr>data' := for_loop 1 (length' numDerivs N) body s\<rparr>
    else e\<lparr>data' := jinja_for (py_range 1 (numDerivs + 1)) (\<lambda>i. body (nat i)) s\<rparr>)
   = \<lparr>data' = fold body [1..<length' numDerivs N] s\<rparr>"
  using forms_agree[where a=1 and numDerivs=numDerivs and N=N and body=body and s=s]
  by (cases "numDerivs < 0") simp_all

lemma clearDerivatives_fold:
  "clearDerivatives numDerivs N this
     = \<lparr>data' = fold (\<lambda>i d. d[i := 0]) [1..<length' numDerivs N] (data' this)\<rparr>"
  unfolding clearDerivatives_def dstart'_def dend'_def
  by (rule forms_from1[where body="\<lambda>i d. d[i := 0]"])

lemma op_times_eq_fold:
  "op_times_eq numDerivs N this other
     = \<lparr>data' = fold (\<lambda>i d. d[i := d ! i * value' other + data' other ! i * value' this])
         [1..<length' numDerivs N]
         ((data' this)[0 := data' this ! 0 * value' other])\<rparr>"
  unfolding op_times_eq_def dstart'_def dend'_def valuepos'_def Let_def
  by (rule forms_from1[where body="\<lambda>i d. d[i := d ! i * value' other + data' other ! i * value' this]"])

section \<open>The operations as folds over the slots\<close>

lemma Evaluation_copy_fold:
  "0 \<le> numDerivs \<Longrightarrow> Evaluation_copy numDerivs N uninit other
     = \<lparr>data' = fold (\<lambda>i d. d[i := data' other ! i]) [0..<length' numDerivs N] (data' uninit)\<rparr>"
  unfolding Evaluation_copy_def
  using forms_from0[where body="\<lambda>i d. d[i := data' other ! i]" and numDerivs=numDerivs
      and e=uninit and s="data' uninit" and N=N]
  by simp

lemma copyDerivatives_fold:
  "copyDerivatives numDerivs N this other
     = \<lparr>data' = fold (\<lambda>i d. d[i := data' other ! i]) [1..<length' numDerivs N] (data' this)\<rparr>"
  unfolding copyDerivatives_def dstart'_def dend'_def
  by (rule forms_from1[where body="\<lambda>i d. d[i := data' other ! i]"])

lemma op_plus_eq_fold:
  "op_plus_eq numDerivs N this other
     = \<lparr>data' = fold (\<lambda>i d. d[i := d ! i + data' other ! i])
         [0..<length' numDerivs N] (data' this)\<rparr>"
  unfolding op_plus_eq_def
  by (rule forms_from0[where body="\<lambda>i d. d[i := d ! i + data' other ! i]"])

lemma op_minus_eq_fold:
  "op_minus_eq numDerivs N this other
     = \<lparr>data' = fold (\<lambda>i d. d[i := d ! i - data' other ! i])
         [0..<length' numDerivs N] (data' this)\<rparr>"
  unfolding op_minus_eq_def
  by (rule forms_from0[where body="\<lambda>i d. d[i := d ! i - data' other ! i]"])

lemma op_times_eq_scalar_fold:
  "op_times_eq_scalar numDerivs N this other
     = \<lparr>data' = fold (\<lambda>i d. d[i := d ! i * deref other d])
         [0..<length' numDerivs N] (data' this)\<rparr>"
  unfolding op_times_eq_scalar_def
  by (rule forms_from0[where body="\<lambda>i d. d[i := d ! i * deref other d]"])

lemma op_div_eq_fold:
  "op_div_eq numDerivs N this other
     = \<lparr>data' = fold (\<lambda>i d. d[i := d ! i * (1 / value' other)
                         - data' other ! i * (value' this * (1 / value' other) * (1 / value' other))])
         [1..<length' numDerivs N]
         ((data' this)[0 := data' this ! 0 * (1 / value' other)])\<rparr>"
  unfolding op_div_eq_def dstart'_def dend'_def valuepos'_def Let_def
  by (rule forms_from1[where body="\<lambda>i d. d[i := d ! i * (1 / value' other)
                         - data' other ! i * (value' this * (1 / value' other) * (1 / value' other))]"])

lemma op_div_eq_scalar_fold:
  "op_div_eq_scalar numDerivs N this other
     = \<lparr>data' = fold (\<lambda>i d. d[i := d ! i * (1 / other)])
         [0..<length' numDerivs N] (data' this)\<rparr>"
  unfolding op_div_eq_scalar_def Let_def
  by (rule forms_from0[where body="\<lambda>i d. d[i := d ! i * (1 / other)]"])

lemma divide'_fold:
  "divide' numDerivs N a b
     = \<lparr>data' = fold (\<lambda>i d. d[i := (- (a * (1 / value' b))) * (1 / value' b) * data' b ! i])
         [1..<length' numDerivs N]
         ((replicate (length' numDerivs N) 0)[0 := a * (1 / value' b)])\<rparr>"
proof -
  have v: "value' (setValue (Evaluation_default numDerivs N) (a * (1 / value' b)))
             = a * (1 / value' b)"
    by (simp add: value'_def setValue_def Evaluation_default_def valuepos'_def length'_def)
  have d: "data' (setValue (Evaluation_default numDerivs N) (a * (1 / value' b)))
             = (replicate (length' numDerivs N) 0)[0 := a * (1 / value' b)]"
    by (simp add: setValue_def Evaluation_default_def valuepos'_def)
  show ?thesis
    unfolding divide'_def dstart'_def dend'_def Let_def v d
    by (rule forms_from1[where body=
          "\<lambda>i d. d[i := (- (a * (1 / value' b))) * (1 / value' b) * data' b ! i]"])
qed

lemma op_neg_fold:
  "op_neg numDerivs N this
     = \<lparr>data' = fold (\<lambda>i d. d[i := - (data' this ! i)])
         [0..<length' numDerivs N] (replicate (length' numDerivs N) 0)\<rparr>"
proof -
  have d: "data' (Evaluation_default numDerivs N :: 'a Evaluation)
             = replicate (length' numDerivs N) 0"
    by (simp add: Evaluation_default_def)
  show ?thesis
    unfolding op_neg_def Let_def d
    by (rule forms_from0[where body="\<lambda>i d. d[i := - (data' this ! i)]"])
qed

lemma op_assign_fold:
  "op_assign numDerivs N this other
     = \<lparr>data' = fold (\<lambda>i d. d[i := data' other ! i]) [0..<length' numDerivs N] (data' this)\<rparr>"
  unfolding op_assign_def
  by (rule forms_from0[where body="\<lambda>i d. d[i := data' other ! i]"])

section \<open>Equality, well-formedness and constants\<close>

lemma eq_loop_iff:
  "eq_loop idx n d d_other \<longleftrightarrow> (\<forall>k. idx \<le> k \<and> k < n \<longrightarrow> d ! k = d_other ! k)"
proof (induction idx n d d_other rule: eq_loop.induct)
  case (1 idx n d d_other)
  show ?case
  proof (cases "idx < n")
    case False
    then have "eq_loop idx n d d_other" by (simp add: eq_loop.simps[of idx n])
    moreover from False have "\<forall>k. idx \<le> k \<and> k < n \<longrightarrow> d ! k = d_other ! k" by auto
    ultimately show ?thesis by blast
  next
    case True
    show ?thesis
    proof (cases "d ! idx = d_other ! idx")
      case False
      with True have "\<not> eq_loop idx n d d_other" by (simp add: eq_loop.simps[of idx n])
      moreover from False True
      have "\<not> (\<forall>k. idx \<le> k \<and> k < n \<longrightarrow> d ! k = d_other ! k)" by auto
      ultimately show ?thesis by blast
    next
      case eq: True
      have "(\<forall>k. idx \<le> k \<and> k < n \<longrightarrow> d ! k = d_other ! k)
              \<longleftrightarrow> (\<forall>k. idx + 1 \<le> k \<and> k < n \<longrightarrow> d ! k = d_other ! k)"
      proof (intro iffI allI impI)
        fix k assume a: "\<forall>k. idx \<le> k \<and> k < n \<longrightarrow> d ! k = d_other ! k" and "idx + 1 \<le> k \<and> k < n"
        then have "idx \<le> k \<and> k < n" by simp
        with a show "d ! k = d_other ! k" by blast
      next
        fix k assume a: "\<forall>k. idx + 1 \<le> k \<and> k < n \<longrightarrow> d ! k = d_other ! k" and b: "idx \<le> k \<and> k < n"
        show "d ! k = d_other ! k"
        proof (cases "k = idx")
          case True with eq show ?thesis by simp
        next
          case False
          with b have "idx + 1 \<le> k \<and> k < n" by simp
          with a show ?thesis by blast
        qed
      qed
      moreover from True eq have "eq_loop idx n d d_other = eq_loop (idx + 1) n d d_other"
        by (simp add: eq_loop.simps[of idx n])
      ultimately show ?thesis using 1 True eq by simp
    qed
  qed
qed

lemma op_eq_iff:
  "well_formed numDerivs N a \<Longrightarrow> well_formed numDerivs N b \<Longrightarrow> op_eq numDerivs N a b \<longleftrightarrow> a = b"
  by (cases a, cases b) (auto simp: op_eq_def well_formed_def eq_loop_iff list_eq_iff_nth_eq)

lemma well_formed_fold:
  "well_formed numDerivs N \<lparr>data' = fold (\<lambda>i d. d[i := f i (d ! i)]) xs d\<rparr>
     \<longleftrightarrow> length d = length' numDerivs N"
  by (simp add: well_formed_def fold_upd_length)

lemma length'_pos: "0 < length' numDerivs N"
  by (simp add: length'_def)

lemma fold_const_from_1:
  "length d = Suc n \<Longrightarrow> fold (\<lambda>i d. d[i := c]) [1..<Suc n] d = d ! 0 # replicate n c"
proof (rule nth_equalityI)
  assume l: "length d = Suc n"
  show "length (fold (\<lambda>i d. d[i := c]) [1..<Suc n] d) = length (d ! 0 # replicate n c)"
    using l fold_upd_length[where f="\<lambda>i x. c" and xs="[1..<Suc n]" and d=d] by simp
  fix j assume "j < length (fold (\<lambda>i d. d[i := c]) [1..<Suc n] d)"
  then have j: "j < length d"
    using fold_upd_length[where f="\<lambda>i x. c" and xs="[1..<Suc n]" and d=d] by simp
  show "fold (\<lambda>i d. d[i := c]) [1..<Suc n] d ! j = (d ! 0 # replicate n c) ! j"
    using fold_upd_nth[OF j, where f="\<lambda>i x. c" and a=1 and b="Suc n"] j l
    by (cases j) auto
qed

lemma clearDerivatives_data:
  "well_formed numDerivs N this \<Longrightarrow>
   clearDerivatives numDerivs N this
     = \<lparr>data' = value' this # replicate (size' numDerivs N) 0\<rparr>"
  using fold_const_from_1[where d="data' this" and n="size' numDerivs N" and c=0]
  by (simp add: clearDerivatives_fold well_formed_def length'_def value'_def valuepos'_def)

lemma setValue_wf: "well_formed numDerivs N this \<Longrightarrow> well_formed numDerivs N (setValue this val)"
  by (simp add: well_formed_def setValue_def)

lemma setValue_value: "well_formed numDerivs N this \<Longrightarrow> value' (setValue this val) = val"
  by (simp add: well_formed_def setValue_def value'_def valuepos'_def length'_def)

lemma Evaluation_const_data:
  "well_formed numDerivs N uninit \<Longrightarrow>
   Evaluation_const numDerivs N uninit c = \<lparr>data' = c # replicate (size' numDerivs N) 0\<rparr>"
  unfolding Evaluation_const_def
  by (simp add: clearDerivatives_data[OF setValue_wf] setValue_value)

lemma op_assign_scalar_data:
  "well_formed numDerivs N this \<Longrightarrow>
   op_assign_scalar numDerivs N this c = \<lparr>data' = c # replicate (size' numDerivs N) 0\<rparr>"
  unfolding op_assign_scalar_def
  by (simp add: clearDerivatives_data[OF setValue_wf] setValue_value)

lemma Evaluation_default_data:
  "Evaluation_default numDerivs N = \<lparr>data' = 0 # replicate (size' numDerivs N) 0\<rparr>"
  by (simp add: Evaluation_default_def length'_def)

lemma derivative_const:
  "derivative numDerivs N \<lparr>data' = c # replicate (size' numDerivs N) z\<rparr> i
     = (if 0 \<le> i \<and> i < int (size' numDerivs N) then Inr z else Inl AssertionFailed)"
proof (cases "0 \<le> i \<and> i < int (size' numDerivs N)")
  case True
  then have "nat i < size' numDerivs N" by linarith
  with True show ?thesis by (simp add: derivative_def dstart'_def)
next
  case False
  then show ?thesis by (auto simp: derivative_def)
qed

lemma well_formed_const: "well_formed numDerivs N \<lparr>data' = c # replicate (size' numDerivs N) z\<rparr>"
  by (simp add: well_formed_def length'_def)


lemma value'_Cons: "value' \<lparr>data' = c # xs\<rparr> = c"
  by (simp add: value'_def valuepos'_def)


lemma fold_copy_all:
  "length d = n \<Longrightarrow> length src = n \<Longrightarrow> fold (\<lambda>i d. d[i := src ! i]) [0..<n] d = src"
proof (rule nth_equalityI)
  assume l: "length d = n" "length src = n"
  show "length (fold (\<lambda>i d. d[i := src ! i]) [0..<n] d) = length src"
    using l fold_upd_length[where f="\<lambda>i x. src ! i" and xs="[0..<n]" and d=d] by simp
  fix j assume "j < length (fold (\<lambda>i d. d[i := src ! i]) [0..<n] d)"
  then have j: "j < length d"
    using fold_upd_length[where f="\<lambda>i x. src ! i" and xs="[0..<n]" and d=d] by simp
  show "fold (\<lambda>i d. d[i := src ! i]) [0..<n] d ! j = src ! j"
    using fold_upd_nth[OF j, where f="\<lambda>i x. src ! i" and a=0 and b=n] j l by simp
qed

lemma Evaluation_copy_id:
  assumes "well_formed numDerivs N uninit" "well_formed numDerivs N other"
  shows "Evaluation_copy numDerivs N uninit other = other"
proof (cases "numDerivs < 0")
  case True
  then show ?thesis by (simp add: Evaluation_copy_def)
next
  case False
  then have "0 \<le> numDerivs" by simp
  from assms show ?thesis
    by (simp add: Evaluation_copy_fold[OF \<open>0 \<le> numDerivs\<close>] well_formed_def fold_copy_all)
qed

lemma op_assign_id:
  assumes "well_formed numDerivs N this" "well_formed numDerivs N other"
  shows "op_assign numDerivs N this other = other"
  using assms by (simp add: op_assign_fold well_formed_def fold_copy_all)

lemma value'_fold1:
  "length d = length' numDerivs N \<Longrightarrow>
   value' \<lparr>data' = fold (\<lambda>i d. d[i := f i (d ! i)]) [1..<length' numDerivs N] d\<rparr> = d ! 0"
  using fold_upd_nth[where j=0 and d=d and f=f and a=1 and b="length' numDerivs N"]
  by (simp add: value'_def valuepos'_def length'_def)

lemma value'_fold0:
  "length d = length' numDerivs N \<Longrightarrow>
   value' \<lparr>data' = fold (\<lambda>i d. d[i := f i (d ! i)]) [0..<length' numDerivs N] d\<rparr>
     = f 0 (d ! 0)"
  using fold_upd_nth[where j=0 and d=d and f=f and a=0 and b="length' numDerivs N"]
  by (simp add: value'_def valuepos'_def length'_def)

lemma derivative_fold:
  assumes "length d = length' numDerivs N" "a \<le> 1"
  shows "derivative numDerivs N
           \<lparr>data' = fold (\<lambda>i d. d[i := f i (d ! i)]) [a..<length' numDerivs N] d\<rparr> i
         = (if 0 \<le> i \<and> i < int (size' numDerivs N)
            then Inr (f (1 + nat i) (d ! (1 + nat i))) else Inl AssertionFailed)"
proof (cases "0 \<le> i \<and> i < int (size' numDerivs N)")
  case True
  then have j: "1 + nat i < length d" using assms(1) by (simp add: length'_def) linarith
  from fold_upd_nth[OF j, where f=f and a=a and b="length' numDerivs N"] j assms True
  show ?thesis by (simp add: derivative_def dstart'_def)
next
  case False
  then show ?thesis by (auto simp: derivative_def)
qed

lemma derivative_Inr:
  "derivative numDerivs N e i = Inr x \<longleftrightarrow>
     0 \<le> i \<and> i < int (size' numDerivs N) \<and> data' e ! (1 + nat i) = x"
  by (auto simp: derivative_def dstart'_def)

lemma value'_data: "value' e = data' e ! 0"
  by (simp add: value'_def valuepos'_def)

lemma createVariable_data:
  assumes "well_formed numDerivs N uninit" "0 \<le> k" "k < int (size' numDerivs N)"
  shows "createVariable numDerivs N uninit v k
           = Inr \<lparr>data' = (v # replicate (size' numDerivs N) 0)[1 + nat k := 1]\<rparr>"
proof -
  have "nat (k + int dstart') = 1 + nat k" using assms(2) by (simp add: dstart'_def)
  with assms show ?thesis
    unfolding createVariable_def Evaluation_var_def Let_def
    by (simp add: clearDerivatives_data[OF setValue_wf] setValue_value)
qed

lemma op_times_eq_value:
  assumes "well_formed numDerivs N this"
  shows "value' (op_times_eq numDerivs N this other) = value' this * value' other"
proof -
  let ?d0 = "(data' this)[0 := data' this ! 0 * value' other]"
  have l: "length ?d0 = length' numDerivs N" using assms by (simp add: well_formed_def)
  have "value' (op_times_eq numDerivs N this other) = ?d0 ! 0"
    unfolding op_times_eq_fold
    by (rule value'_fold1[OF l, where f="\<lambda>i x. x * value' other + data' other ! i * value' this"])
  also have "?d0 ! 0 = value' this * value' other"
    using assms by (simp add: well_formed_def length'_def value'_data)
  finally show ?thesis .
qed

lemma op_times_eq_derivative:
  assumes "well_formed numDerivs N this"
  shows "derivative numDerivs N (op_times_eq numDerivs N this other) i
     = (if 0 \<le> i \<and> i < int (size' numDerivs N)
        then Inr (data' this ! (1 + nat i) * value' other
                  + data' other ! (1 + nat i) * value' this)
        else Inl AssertionFailed)"
proof -
  let ?d0 = "(data' this)[0 := data' this ! 0 * value' other]"
  have l: "length ?d0 = length' numDerivs N" using assms by (simp add: well_formed_def)
  have "derivative numDerivs N (op_times_eq numDerivs N this other) i
     = (if 0 \<le> i \<and> i < int (size' numDerivs N)
        then Inr (?d0 ! (1 + nat i) * value' other
                  + data' other ! (1 + nat i) * value' this)
        else Inl AssertionFailed)"
    unfolding op_times_eq_fold
    by (rule derivative_fold[OF l, where a=1
          and f="\<lambda>i x. x * value' other + data' other ! i * value' this"]) simp
  then show ?thesis by simp
qed

lemma op_times_eq_wf:
  "well_formed numDerivs N this \<Longrightarrow> well_formed numDerivs N (op_times_eq numDerivs N this other)"
  using well_formed_fold[where f="\<lambda>i x. x * value' other + data' other ! i * value' this"
      and d="(data' this)[0 := data' this ! 0 * value' other]" and numDerivs=numDerivs and N=N]
  by (simp add: op_times_eq_fold well_formed_def)


lemma op_div_eq_value:
  assumes "well_formed numDerivs N this"
  shows "value' (op_div_eq numDerivs N this other) = value' this * (1 / value' other)"
proof -
  let ?d0 = "(data' this)[0 := data' this ! 0 * (1 / value' other)]"
  have l: "length ?d0 = length' numDerivs N" using assms by (simp add: well_formed_def)
  have "value' (op_div_eq numDerivs N this other) = ?d0 ! 0"
    unfolding op_div_eq_fold
    by (rule value'_fold1[OF l, where f="\<lambda>i x. x * (1 / value' other)
          - data' other ! i * (value' this * (1 / value' other) * (1 / value' other))"])
  also have "?d0 ! 0 = value' this * (1 / value' other)"
    using assms by (simp add: well_formed_def length'_def value'_data)
  finally show ?thesis .
qed

lemma op_div_eq_derivative:
  assumes "well_formed numDerivs N this"
  shows "derivative numDerivs N (op_div_eq numDerivs N this other) i
     = (if 0 \<le> i \<and> i < int (size' numDerivs N)
        then Inr (data' this ! (1 + nat i) * (1 / value' other)
                  - data' other ! (1 + nat i)
                    * (value' this * (1 / value' other) * (1 / value' other)))
        else Inl AssertionFailed)"
proof -
  let ?d0 = "(data' this)[0 := data' this ! 0 * (1 / value' other)]"
  have l: "length ?d0 = length' numDerivs N" using assms by (simp add: well_formed_def)
  have "derivative numDerivs N (op_div_eq numDerivs N this other) i
     = (if 0 \<le> i \<and> i < int (size' numDerivs N)
        then Inr (?d0 ! (1 + nat i) * (1 / value' other)
                  - data' other ! (1 + nat i)
                    * (value' this * (1 / value' other) * (1 / value' other)))
        else Inl AssertionFailed)"
    unfolding op_div_eq_fold
    by (rule derivative_fold[OF l, where a=1 and f="\<lambda>i x. x * (1 / value' other)
          - data' other ! i * (value' this * (1 / value' other) * (1 / value' other))"]) simp
  then show ?thesis by simp
qed


lemma derivative_update_unit:
  assumes "0 \<le> k" "k < int n" "0 \<le> j" "j < int n"
  shows "(v # replicate n z)[1 + nat k := u] ! (1 + nat j) = (if j = k then u else z)"
proof -
  from assms have "nat k < n" "nat j < n" by linarith+
  moreover from assms have "nat j = nat k \<longleftrightarrow> j = k" by linarith
  ultimately show ?thesis by (auto simp: nth_list_update)
qed


lemma divide'_wf: "well_formed numDerivs N (divide' numDerivs N a b)"
  unfolding divide'_fold
  using well_formed_fold[where f="\<lambda>i x. (- (a * (1 / value' b))) * (1 / value' b) * data' b ! i"
      and d="(replicate (length' numDerivs N) 0)[0 := a * (1 / value' b)]"
      and numDerivs=numDerivs and N=N and xs="[1..<length' numDerivs N]"]
  by simp

lemma divide'_value: "value' (divide' numDerivs N a b) = a * (1 / value' b)"
proof -
  let ?d0 = "(replicate (length' numDerivs N) 0)[0 := a * (1 / value' b)]"
  have l: "length ?d0 = length' numDerivs N" by simp
  have "value' (divide' numDerivs N a b) = ?d0 ! 0"
    unfolding divide'_fold
    by (rule value'_fold1[OF l,
          where f="\<lambda>i x. (- (a * (1 / value' b))) * (1 / value' b) * data' b ! i"])
  also have "?d0 ! 0 = a * (1 / value' b)" by (simp add: length'_def)
  finally show ?thesis .
qed

lemma divide'_derivative:
  "derivative numDerivs N (divide' numDerivs N a b) i
     = (if 0 \<le> i \<and> i < int (size' numDerivs N)
        then Inr ((- (a * (1 / value' b))) * (1 / value' b) * data' b ! (1 + nat i))
        else Inl AssertionFailed)"
proof -
  let ?d0 = "(replicate (length' numDerivs N) 0)[0 := a * (1 / value' b)]"
  have l: "length ?d0 = length' numDerivs N" by simp
  show ?thesis
    unfolding divide'_fold
    by (rule derivative_fold[OF l, where a=1
          and f="\<lambda>i x. (- (a * (1 / value' b))) * (1 / value' b) * data' b ! i"]) simp
qed


lemma op_plus_eq_scalar_data:
  "op_plus_eq_scalar this a = \<lparr>data' = (data' this)[0 := value' this + a]\<rparr>"
  by (simp add: op_plus_eq_scalar_def valuepos'_def value'_def)

lemma scalar_minus_fold:
  assumes "well_formed numDerivs N uninit"
  shows "scalar_minus numDerivs N uninit a b
     = \<lparr>data' = fold (\<lambda>i d. d[i := d ! i - data' b ! i]) [0..<length' numDerivs N]
                  (a # replicate (size' numDerivs N) 0)\<rparr>"
  unfolding scalar_minus_def Evaluation_const_data[OF assms] op_minus_eq_fold by simp

lemma scalar_minus_value:
  assumes "well_formed numDerivs N uninit"
  shows "value' (scalar_minus numDerivs N uninit a b) = a - value' b"
proof -
  let ?d0 = "a # replicate (size' numDerivs N) 0"
  have l: "length ?d0 = length' numDerivs N" by (simp add: length'_def)
  have "value' (scalar_minus numDerivs N uninit a b) = ?d0 ! 0 - data' b ! 0"
    unfolding scalar_minus_fold[OF assms]
    by (rule value'_fold0[OF l, where f="\<lambda>i x. x - data' b ! i"])
  then show ?thesis by (simp add: value'_data)
qed

lemma scalar_minus_derivative:
  fixes b :: "'a::group_add Evaluation"
  assumes "well_formed numDerivs N uninit"
  shows "derivative numDerivs N (scalar_minus numDerivs N uninit a b) i
     = (if 0 \<le> i \<and> i < int (size' numDerivs N)
        then Inr (- (data' b ! (1 + nat i))) else Inl AssertionFailed)"
proof -
  let ?d0 = "a # replicate (size' numDerivs N) 0"
  have l: "length ?d0 = length' numDerivs N" by (simp add: length'_def)
  have "derivative numDerivs N (scalar_minus numDerivs N uninit a b) i
     = (if 0 \<le> i \<and> i < int (size' numDerivs N)
        then Inr (?d0 ! (1 + nat i) - data' b ! (1 + nat i)) else Inl AssertionFailed)"
    unfolding scalar_minus_fold[OF assms]
    by (rule derivative_fold[OF l, where a=0 and f="\<lambda>i x. x - data' b ! i"]) simp
  moreover have "0 \<le> i \<and> i < int (size' numDerivs N)
      \<Longrightarrow> replicate (size' numDerivs N) (0::'a) ! nat i = 0"
    by (simp add: nat_less_iff)
  ultimately show ?thesis by simp
qed


lemma py_range_set: "set (py_range a b) = {i. a \<le> i \<and> i < b}"
  by (auto simp: py_range_def)

lemma size'_unrolled: "0 \<le> numDerivs \<Longrightarrow> size' numDerivs N = size' (-1) (nat numDerivs)"
  by (simp add: size'_def)

lemma length'_unrolled:
  "0 \<le> numDerivs \<Longrightarrow> length' numDerivs N = length' (-1) (nat numDerivs)"
  by (simp add: length'_def size'_def)

lemma well_formed_unrolled:
  "0 \<le> numDerivs \<Longrightarrow> well_formed numDerivs N e \<longleftrightarrow> well_formed (-1) (nat numDerivs) e"
  by (simp add: well_formed_def length'_unrolled[of numDerivs N])

lemma clearDerivatives_unrolled:
  "0 \<le> numDerivs \<Longrightarrow>
   clearDerivatives numDerivs N this = clearDerivatives (-1) (nat numDerivs) this"
  by (simp only: clearDerivatives_fold length'_unrolled[of numDerivs N])

lemma copyDerivatives_unrolled:
  "0 \<le> numDerivs \<Longrightarrow>
   copyDerivatives numDerivs N this other = copyDerivatives (-1) (nat numDerivs) this other"
  by (simp only: copyDerivatives_fold length'_unrolled[of numDerivs N])

lemma Evaluation_copy_unrolled:
  assumes "0 \<le> numDerivs" "well_formed numDerivs N uninit" "well_formed numDerivs N other"
  shows "Evaluation_copy numDerivs N uninit other
           = Evaluation_copy (-1) (nat numDerivs) uninit other"
proof -
  from assms have "well_formed (-1) (nat numDerivs) uninit" "well_formed (-1) (nat numDerivs) other"
    by (simp_all add: well_formed_unrolled[of numDerivs N])
  then have "Evaluation_copy (-1) (nat numDerivs) uninit other = other"
    by (rule Evaluation_copy_id)
  with Evaluation_copy_id[OF assms(2,3)] show ?thesis by simp
qed

lemma op_plus_eq_unrolled:
  "0 \<le> numDerivs \<Longrightarrow>
   op_plus_eq numDerivs N this other = op_plus_eq (-1) (nat numDerivs) this other"
  by (simp only: op_plus_eq_fold length'_unrolled[of numDerivs N])

lemma op_minus_eq_unrolled:
  "0 \<le> numDerivs \<Longrightarrow>
   op_minus_eq numDerivs N this other = op_minus_eq (-1) (nat numDerivs) this other"
  by (simp only: op_minus_eq_fold length'_unrolled[of numDerivs N])

lemma op_times_eq_unrolled:
  "0 \<le> numDerivs \<Longrightarrow>
   op_times_eq numDerivs N this other = op_times_eq (-1) (nat numDerivs) this other"
  by (simp only: op_times_eq_fold length'_unrolled[of numDerivs N])

lemma op_times_eq_scalar_unrolled:
  "0 \<le> numDerivs \<Longrightarrow>
   op_times_eq_scalar numDerivs N this c = op_times_eq_scalar (-1) (nat numDerivs) this c"
  by (simp only: op_times_eq_scalar_fold length'_unrolled[of numDerivs N])

lemma op_div_eq_unrolled:
  "0 \<le> numDerivs \<Longrightarrow>
   op_div_eq numDerivs N this other = op_div_eq (-1) (nat numDerivs) this other"
  by (simp only: op_div_eq_fold length'_unrolled[of numDerivs N])

lemma op_div_eq_scalar_unrolled:
  "0 \<le> numDerivs \<Longrightarrow>
   op_div_eq_scalar numDerivs N this c = op_div_eq_scalar (-1) (nat numDerivs) this c"
  by (simp only: op_div_eq_scalar_fold length'_unrolled[of numDerivs N])

lemma divide'_unrolled:
  "0 \<le> numDerivs \<Longrightarrow> divide' numDerivs N a b = divide' (-1) (nat numDerivs) a b"
  by (simp only: divide'_fold length'_unrolled[of numDerivs N])

lemma op_neg_unrolled:
  "0 \<le> numDerivs \<Longrightarrow> op_neg numDerivs N this = op_neg (-1) (nat numDerivs) this"
  by (simp only: op_neg_fold length'_unrolled[of numDerivs N])

lemma op_assign_unrolled:
  "0 \<le> numDerivs \<Longrightarrow>
   op_assign numDerivs N this other = op_assign (-1) (nat numDerivs) this other"
  by (simp only: op_assign_fold length'_unrolled[of numDerivs N])

lemma Evaluation_default_unrolled:
  "0 \<le> numDerivs \<Longrightarrow>
   Evaluation_default numDerivs N = Evaluation_default (-1) (nat numDerivs)"
  by (simp only: Evaluation_default_def length'_unrolled[of numDerivs N])

lemma Evaluation_var_unrolled:
  "0 \<le> numDerivs \<Longrightarrow>
   Evaluation_var numDerivs N uninit c k = Evaluation_var (-1) (nat numDerivs) uninit c k"
  by (simp only: Evaluation_var_def size'_unrolled[of numDerivs N]
        clearDerivatives_unrolled[of numDerivs N])

lemma derivative_unrolled:
  "0 \<le> numDerivs \<Longrightarrow> derivative numDerivs N e k = derivative (-1) (nat numDerivs) e k"
  by (simp only: derivative_def size'_unrolled[of numDerivs N])

lemma setDerivative_unrolled:
  "0 \<le> numDerivs \<Longrightarrow>
   setDerivative numDerivs N e k x = setDerivative (-1) (nat numDerivs) e k x"
  by (simp only: setDerivative_def size'_unrolled[of numDerivs N])

lemma op_eq_unrolled:
  "0 \<le> numDerivs \<Longrightarrow> op_eq numDerivs N a b = op_eq (-1) (nat numDerivs) a b"
  by (simp only: op_eq_def length'_unrolled[of numDerivs N])

lemma deref_Outside: "deref (Outside c) d = c"
  by (simp add: deref_def)

lemma scalar_times_fold:
  assumes "well_formed numDerivs N uninit" "well_formed numDerivs N b"
  shows "scalar_times numDerivs N uninit a b
     = \<lparr>data' = fold (\<lambda>i d. d[i := d ! i * a]) [0..<length' numDerivs N] (data' b)\<rparr>"
  unfolding scalar_times_def Evaluation_copy_id[OF assms] op_times_eq_scalar_fold deref_Outside
  ..

lemma scalar_times_value:
  assumes "well_formed numDerivs N uninit" "well_formed numDerivs N b"
  shows "value' (scalar_times numDerivs N uninit a b) = value' b * a"
proof -
  have l: "length (data' b) = length' numDerivs N" using assms(2) by (simp add: well_formed_def)
  have "value' (scalar_times numDerivs N uninit a b) = data' b ! 0 * a"
    unfolding scalar_times_fold[OF assms]
    by (rule value'_fold0[OF l, where f="\<lambda>i x. x * a"])
  then show ?thesis by (simp add: value'_data)
qed

lemma scalar_times_derivative:
  assumes "well_formed numDerivs N uninit" "well_formed numDerivs N b"
  shows "derivative numDerivs N (scalar_times numDerivs N uninit a b) i
     = (if 0 \<le> i \<and> i < int (size' numDerivs N)
        then Inr (data' b ! (1 + nat i) * a) else Inl AssertionFailed)"
proof -
  have l: "length (data' b) = length' numDerivs N" using assms(2) by (simp add: well_formed_def)
  show ?thesis
    unfolding scalar_times_fold[OF assms]
    by (rule derivative_fold[OF l, where a=0 and f="\<lambda>i x. x * a"]) simp
qed

section \<open>File names and the generator run\<close>

lemma digit_inj: "a < 10 \<Longrightarrow> b < 10 \<Longrightarrow> digit a = digit b \<Longrightarrow> a = b"
proof -
  assume a: "a < 10" and b: "b < 10" and e: "digit a = digit b"
  have d: "distinct ''0123456789''" by simp
  have l: "length ''0123456789'' = 10" by simp
  from e have "''0123456789'' ! a = ''0123456789'' ! b" by (simp add: digit_def)
  with nth_eq_iff_index_eq[OF d, of a b] a b l show "a = b" by simp
qed

lemma digit_in: "a < 10 \<Longrightarrow> digit a \<in> set ''0123456789''"
  unfolding digit_def by (rule nth_mem) simp

lemma str_nat_nonempty: "str_nat n \<noteq> []"
  by (subst str_nat.simps) simp

lemma str_nat_digits: "set (str_nat n) \<subseteq> set ''0123456789''"
proof (induction n rule: str_nat.induct)
  case (1 n)
  show ?case
  proof (cases "n < 10")
    case True
    then show ?thesis using digit_in[of n] by (subst str_nat.simps) simp
  next
    case False
    have "n mod 10 < 10" by simp
    from digit_in[OF this] 1[OF False] False show ?thesis
      by (subst str_nat.simps) simp
  qed
qed

lemma str_nat_length1: "length (str_nat n) = 1 \<longleftrightarrow> n < 10"
proof (cases "n < 10")
  case True
  then show ?thesis by (subst str_nat.simps) simp
next
  case False
  have "str_nat (n div 10) \<noteq> []" by (rule str_nat_nonempty)
  then have "length (str_nat (n div 10)) \<noteq> 0" by simp
  with False show ?thesis by (subst str_nat.simps) simp
qed

lemma str_nat_inj: "str_nat n = str_nat m \<Longrightarrow> n = m"
proof (induction n arbitrary: m rule: str_nat.induct)
  case (1 n)
  show ?case
  proof (cases "n < 10")
    case True
    with str_nat_length1[of n] "1.prems" have "length (str_nat m) = 1" by simp
    then have m: "m < 10" using str_nat_length1[of m] by simp
    from "1.prems" True m have "digit n = digit m"
      by (simp add: str_nat.simps[of n] str_nat.simps[of m])
    with True m show ?thesis by (rule digit_inj)
  next
    case False
    with str_nat_length1[of n] "1.prems" have "length (str_nat m) \<noteq> 1" by simp
    then have m: "\<not> m < 10" using str_nat_length1[of m] by simp
    from "1.prems" False m
    have "str_nat (n div 10) @ [digit (n mod 10)] = str_nat (m div 10) @ [digit (m mod 10)]"
      by (simp add: str_nat.simps[of n] str_nat.simps[of m])
    then have a: "str_nat (n div 10) = str_nat (m div 10)"
      and b: "digit (n mod 10) = digit (m mod 10)" by simp_all
    from 1(1)[OF False a] have q: "n div 10 = m div 10" .
    from digit_inj[OF _ _ b] have r: "n mod 10 = m mod 10" by simp
    from q r show ?thesis by (metis div_mult_mod_eq)
  qed
qed

lemma str_int_inj: "0 \<le> i \<Longrightarrow> 0 \<le> j \<Longrightarrow> str_int i = str_int j \<Longrightarrow> i = j"
  using str_nat_inj[of "nat i" "nat j"] by (simp add: str_int_def)

lemma str_int_hd:
  "0 \<le> i \<Longrightarrow> \<exists>c cs. str_int i = c # cs \<and> c \<in> set ''0123456789''"
proof -
  assume "0 \<le> i"
  then have e: "str_int i = str_nat (nat i)" by (simp add: str_int_def)
  obtain c cs where c: "str_nat (nat i) = c # cs"
    using str_nat_nonempty[of "nat i"] by (cases "str_nat (nat i)") auto
  with str_nat_digits[of "nat i"] have "c \<in> set ''0123456789''" by auto
  with e c show ?thesis by simp
qed

lemma specialization_fileName_inj:
  "0 \<le> i \<Longrightarrow> 0 \<le> j \<Longrightarrow> specialization_fileName i = specialization_fileName j \<Longrightarrow> i = j"
  using str_int_inj[of i j] by (simp add: specialization_fileName_def)

lemma specialization_fileName_not_generic:
  "0 \<le> i \<Longrightarrow> specialization_fileName i \<noteq> ''opm/material/densead/Evaluation.hpp''"
  using str_int_hd[of i] by (auto simp: specialization_fileName_def)

lemma specialization_fileName_not_aggregator:
  "0 \<le> i \<Longrightarrow>
   specialization_fileName i \<noteq> ''opm/material/densead/EvaluationSpecializations.hpp''"
  using str_int_hd[of i] by (auto simp: specialization_fileName_def)

lemma fold_upd_other:
  "p \<notin> k ` set ns \<Longrightarrow> fold (\<lambda>n f. f(k n \<mapsto> v n)) ns f0 p = f0 p"
  by (induction ns arbitrary: f0) auto

lemma fold_upd_dom:
  "dom (fold (\<lambda>n f. f(k n \<mapsto> v n)) ns f0) = dom f0 \<union> k ` set ns"
  by (induction ns arbitrary: f0) auto

lemma fold_upd_at:
  "inj_on k (set ns) \<Longrightarrow> n \<in> set ns \<Longrightarrow>
   fold (\<lambda>n f. f(k n \<mapsto> v n)) ns f0 (k n) = Some (v n)"
proof (induction ns arbitrary: f0)
  case Nil
  then show ?case by simp
next
  case (Cons x xs)
  from Cons.prems(1) have inj: "inj_on k (set xs)" by (simp add: inj_on_def)
  show ?case
  proof (cases "n \<in> set xs")
    case True
    from Cons.IH[OF inj True] show ?thesis by (simp only: fold.simps o_apply)
  next
    case False
    with Cons.prems(2) have nx: "n = x" by simp
    have "k n \<notin> k ` set xs"
    proof
      assume "k n \<in> k ` set xs"
      then obtain y where y: "y \<in> set xs" "k n = k y" by auto
      with Cons.prems(1) nx have "n = y" by (auto simp: inj_on_def)
      with y False show False by simp
    qed
    then have "fold (\<lambda>n f. f(k n \<mapsto> v n)) xs (f0(k x \<mapsto> v x)) (k n)
                 = (f0(k x \<mapsto> v x)) (k n)"
      by (rule fold_upd_other)
    also have "\<dots> = Some (v n)" using nx by simp
    finally show ?thesis by (simp only: fold.simps o_apply)
  qed
qed

lemma gen_specializations_ok:
  assumes "\<forall>n\<in>set ns. writable e (specialization_fileName n)"
  shows "gen_specializations e scriptName ns s
     = (None,
        \<lparr>files = fold (\<lambda>n f. f(specialization_fileName n
                               \<mapsto> render_specialization e n scriptName)) ns (files s),
         stdout = stdout s
           @ map (\<lambda>n. ''Generating specialization for '' @ str_int n @ '' derivatives'') ns,
         fileNames = fileNames s @ map specialization_fileName ns\<rparr>)"
  using assms
proof (induction ns arbitrary: s)
  case Nil
  then show ?case by simp
next
  case (Cons n ns)
  from Cons.prems have w: "writable e (specialization_fileName n)"
    and r: "\<forall>n\<in>set ns. writable e (specialization_fileName n)" by simp_all
  show ?case
    unfolding gen_specializations.simps Let_def write_file_def print_def
    by (simp only: w if_True prod.case option.case Cons.IH[OF r])
       (simp del: fun_upd_apply)
qed

lemma py_range_nonneg: "n \<in> set (py_range 1 b) \<Longrightarrow> 0 \<le> n"
  by (simp add: py_range_set)

lemma specialization_fileName_inj_on:
  "inj_on specialization_fileName (set (py_range 1 b))"
  by (rule inj_onI) (auto dest: py_range_nonneg specialization_fileName_inj)

lemma py_range_distinct: "distinct (py_range a b)"
  by (simp add: py_range_def)

lemma py_range_sorted: "sorted (py_range a b)"
  by (simp add: py_range_def)

lemma output_files_distinct: "distinct (output_files maxDerivs)"
proof -
  let ?ns = "py_range 1 (maxDerivs + 1)"
  have "distinct (map specialization_fileName ?ns)"
    by (simp add: distinct_map py_range_distinct specialization_fileName_inj_on)
  moreover have "''opm/material/densead/Evaluation.hpp''
      \<notin> set (map specialization_fileName ?ns)"
    using specialization_fileName_not_generic py_range_nonneg by fastforce
  moreover have "''opm/material/densead/EvaluationSpecializations.hpp''
      \<notin> set (map specialization_fileName ?ns)"
    using specialization_fileName_not_aggregator py_range_nonneg by fastforce
  ultimately show ?thesis by (simp add: output_files_def)
qed

lemma generate_ok:
  assumes "\<forall>p\<in>set (output_files maxDerivs). writable e p"
  shows "generate e maxDerivs (script # args) s0
     = (None,
        \<lparr>files = (fold (\<lambda>n f. f(specialization_fileName n
                               \<mapsto> render_specialization e n (basename script)))
                    (py_range 1 (maxDerivs + 1))
                    ((files s0)(''opm/material/densead/Evaluation.hpp''
                               \<mapsto> render_specialization e (- 1) (basename script))))
                  (''opm/material/densead/EvaluationSpecializations.hpp''
                     \<mapsto> render_includeSpecializations e
                          (fileNames s0
                           @ map specialization_fileName (py_range 1 (maxDerivs + 1)))
                          (basename script)),
         stdout = (stdout s0 @ [''Generating generic template class''])
           @ map (\<lambda>n. ''Generating specialization for '' @ str_int n @ '' derivatives'')
               (py_range 1 (maxDerivs + 1)),
         fileNames = fileNames s0
           @ map specialization_fileName (py_range 1 (maxDerivs + 1))\<rparr>)"
proof -
  from assms have w1: "writable e ''opm/material/densead/Evaluation.hpp''"
    and w2: "\<forall>n\<in>set (py_range 1 (maxDerivs + 1)). writable e (specialization_fileName n)"
    and w3: "writable e ''opm/material/densead/EvaluationSpecializations.hpp''"
    unfolding output_files_def by simp_all
  show ?thesis
    unfolding generate_def Let_def write_file_def print_def
    by (simp only: w1 w3 if_True prod.case option.case list.case
          gen_specializations_ok[OF w2])
       (simp del: fun_upd_apply)
qed

lemma layered_first:
  assumes "g \<noteq> a" "g \<notin> k ` set ns"
  shows "((fold (\<lambda>n f. f(k n \<mapsto> v n)) ns (f0(g \<mapsto> vg)))(a \<mapsto> va)) g = Some vg"
proof -
  have "fold (\<lambda>n f. f(k n \<mapsto> v n)) ns (f0(g \<mapsto> vg)) g = (f0(g \<mapsto> vg)) g"
    using assms(2) by (rule fold_upd_other)
  with assms(1) show ?thesis by simp
qed

lemma layered_middle:
  assumes "a \<notin> k ` set ns" "inj_on k (set ns)" "n \<in> set ns"
  shows "((fold (\<lambda>n f. f(k n \<mapsto> v n)) ns (f0(g \<mapsto> vg)))(a \<mapsto> va)) (k n) = Some (v n)"
proof -
  have "fold (\<lambda>n f. f(k n \<mapsto> v n)) ns (f0(g \<mapsto> vg)) (k n) = Some (v n)"
    using assms(2,3) by (rule fold_upd_at)
  moreover from assms(1,3) have "k n \<noteq> a" by auto
  ultimately show ?thesis by simp
qed

lemma layered_last:
  "((fold (\<lambda>n f. f(k n \<mapsto> v n)) ns (f0(g \<mapsto> vg)))(a \<mapsto> va)) a = Some va"
  by simp

lemma layered_other:
  assumes "p \<noteq> g" "p \<noteq> a" "p \<notin> k ` set ns"
  shows "((fold (\<lambda>n f. f(k n \<mapsto> v n)) ns (f0(g \<mapsto> vg)))(a \<mapsto> va)) p = f0 p"
proof -
  have "fold (\<lambda>n f. f(k n \<mapsto> v n)) ns (f0(g \<mapsto> vg)) p = (f0(g \<mapsto> vg)) p"
    using assms(3) by (rule fold_upd_other)
  with assms(1,2) show ?thesis by simp
qed

lemma layered_same:
  assumes "g \<noteq> a" "g \<notin> k ` set ns" "a \<notin> k ` set ns" "inj_on k (set ns)"
    and "p = g \<or> p = a \<or> p \<in> k ` set ns"
  shows "((fold (\<lambda>n f. f(k n \<mapsto> v n)) ns (f0(g \<mapsto> vg)))(a \<mapsto> va)) p
       = ((fold (\<lambda>n f. f(k n \<mapsto> v n)) ns (f1(g \<mapsto> vg)))(a \<mapsto> va)) p"
proof -
  consider "p = g" | "p = a" | n where "n \<in> set ns" "p = k n" using assms(5) by auto
  then show ?thesis
  proof cases
    case 1
    then show ?thesis
      using layered_first[OF assms(1,2), of v f0 vg va] layered_first[OF assms(1,2), of v f1 vg va]
      by simp
  next
    case 2
    then show ?thesis by simp
  next
    case 3
    then show ?thesis
      using layered_middle[OF assms(3,4) 3(1), of v f0 g vg va]
        layered_middle[OF assms(3,4) 3(1), of v f1 g vg va]
      by simp
  qed
qed

lemma layered_idem:
  assumes "g \<noteq> a" "g \<notin> k ` set ns" "a \<notin> k ` set ns" "inj_on k (set ns)"
  shows "(fold (\<lambda>n f. f(k n \<mapsto> v n)) ns
            ((((fold (\<lambda>n f. f(k n \<mapsto> v n)) ns (f0(g \<mapsto> vg)))(a \<mapsto> va)))(g \<mapsto> vg)))
           (a \<mapsto> va)
       = (fold (\<lambda>n f. f(k n \<mapsto> v n)) ns (f0(g \<mapsto> vg)))(a \<mapsto> va)"
    (is "?L = ?R")
proof (rule ext)
  fix p
  show "?L p = ?R p"
  proof (cases "p = g \<or> p = a \<or> p \<in> k ` set ns")
    case True
    from layered_same[OF assms True, of v ?R vg va f0] show ?thesis .
  next
    case False
    then have "?L p = ?R p" using layered_other[of p g a k ns v ?R vg va] by simp
    then show ?thesis .
  qed
qed

lemma main_ok:
  assumes "(if length (script # args) = 2 then py_int e ((script # args) ! 1) else Some 12)
             = Some maxDerivs"
    and "\<forall>p\<in>set (output_files maxDerivs). writable e p"
  shows "main e (script # args) fs
     = (None,
        \<lparr>files = (fold (\<lambda>n f. f(specialization_fileName n
                               \<mapsto> render_specialization e n (basename script)))
                    (py_range 1 (maxDerivs + 1))
                    (fs(''opm/material/densead/Evaluation.hpp''
                          \<mapsto> render_specialization e (- 1) (basename script))))
                  (''opm/material/densead/EvaluationSpecializations.hpp''
                     \<mapsto> render_includeSpecializations e
                          (map specialization_fileName (py_range 1 (maxDerivs + 1)))
                          (basename script)),
         stdout = ''Generating generic template class''
           # map (\<lambda>n. ''Generating specialization for '' @ str_int n @ '' derivatives'')
               (py_range 1 (maxDerivs + 1)),
         fileNames = map specialization_fileName (py_range 1 (maxDerivs + 1))\<rparr>)"
  unfolding main_def Let_def assms(1) option.case generate_ok[OF assms(2)]
  by (simp del: fun_upd_apply)

lemma output_files_set:
  "set (output_files maxDerivs)
     = {''opm/material/densead/Evaluation.hpp'',
        ''opm/material/densead/EvaluationSpecializations.hpp''}
       \<union> specialization_fileName ` set (py_range 1 (maxDerivs + 1))"
  unfolding output_files_def by (simp only: list.set set_append set_map) blast

lemma generic_not_specialization:
  "''opm/material/densead/Evaluation.hpp''
     \<notin> specialization_fileName ` set (py_range 1 b)"
  using specialization_fileName_not_generic py_range_nonneg by fastforce

lemma aggregator_not_specialization:
  "''opm/material/densead/EvaluationSpecializations.hpp''
     \<notin> specialization_fileName ` set (py_range 1 b)"
  using specialization_fileName_not_aggregator py_range_nonneg by fastforce

lemma generic_not_aggregator:
  "''opm/material/densead/Evaluation.hpp''
     \<noteq> ''opm/material/densead/EvaluationSpecializations.hpp''"
  by simp

section \<open>The claims\<close>

text \<open>
  C1. \<^verbatim>\<open>operator*=\<close> between Evaluations is the product rule on the operands as they
  were at the call: the new value is \<open>u * v\<close> and derivative \<open>i\<close> is
  \<open>d_u[i] * v + d_v[i] * u\<close>, in both renderings of the template; \<^verbatim>\<open>operator*\<close> is the
  same on a copy. For \<open>u = variable(3, 0)\<close> and \<open>v = variable(4, 1)\<close> with two
  derivatives, \<open>u * v\<close> has value \<open>12\<close> and derivatives \<open>4\<close> and \<open>3\<close>.
\<close>

theorem product_rule:
  fixes this other uninit :: "'a::{plus,times} Evaluation"
    and un1 un2 un3 :: "real Evaluation"
  assumes "well_formed numDerivs N this" and "well_formed numDerivs N other" and "well_formed numDerivs N uninit"
    and "well_formed nd2 2 un1" and "well_formed nd2 2 un2" and "well_formed nd2 2 un3" and "nd2 = -1 \<or> nd2 = 2"
  shows "value' (op_times_eq numDerivs N this other) = value' this * value' other
   \<and> (\<forall>i du dv. derivative numDerivs N this i = Inr du
                 \<and> derivative numDerivs N other i = Inr dv
        \<longrightarrow> derivative numDerivs N (op_times_eq numDerivs N this other) i
              = Inr (du * value' other + dv * value' this))
   \<and> op_times numDerivs N uninit this other = op_times_eq numDerivs N this other
   \<and> (\<exists>u v. createVariable nd2 2 un1 3 0 = Inr u \<and> createVariable nd2 2 un2 4 1 = Inr v
        \<and> value' (op_times nd2 2 un3 u v) = 12
        \<and> derivative nd2 2 (op_times nd2 2 un3 u v) 0 = Inr 4
        \<and> derivative nd2 2 (op_times nd2 2 un3 u v) 1 = Inr 3)"
proof (intro conjI)
  show "value' (op_times_eq numDerivs N this other) = value' this * value' other"
    using assms(1) by (rule op_times_eq_value)
  show "\<forall>i du dv. derivative numDerivs N this i = Inr du
                 \<and> derivative numDerivs N other i = Inr dv
        \<longrightarrow> derivative numDerivs N (op_times_eq numDerivs N this other) i
              = Inr (du * value' other + dv * value' this)"
    using assms(1) by (auto simp: op_times_eq_derivative derivative_Inr)
  show "op_times numDerivs N uninit this other = op_times_eq numDerivs N this other"
    using assms(1,3) by (simp add: op_times_def Evaluation_copy_id)
  have sz: "size' nd2 2 = 2" using assms(7) by (auto simp: size'_def)
  let ?u = "\<lparr>data' = [3, 1, 0 :: real]\<rparr>" and ?v = "\<lparr>data' = [4, 0, 1 :: real]\<rparr>"
  have rep: "replicate (size' nd2 2) (0::real) = [0, 0]"
    unfolding sz by (simp add: numeral_2_eq_2)
  have k0: "(0::int) \<le> 0" "(0::int) < int (size' nd2 2)"
    and k1: "(0::int) \<le> 1" "(1::int) < int (size' nd2 2)"
    unfolding sz by simp_all
  have u: "createVariable nd2 2 un1 3 0 = Inr ?u"
    unfolding createVariable_data[OF assms(4) k0] rep by simp
  have v: "createVariable nd2 2 un2 4 1 = Inr ?v"
    unfolding createVariable_data[OF assms(5) k1] rep by simp
  have wu: "well_formed nd2 2 ?u" and wv: "well_formed nd2 2 ?v" by (simp_all add: well_formed_def length'_def sz)
  have r: "op_times nd2 2 un3 ?u ?v = op_times_eq nd2 2 ?u ?v"
    using wu assms(6) by (simp add: op_times_def Evaluation_copy_id)
  have "value' (op_times nd2 2 un3 ?u ?v) = 12"
    unfolding r by (simp add: op_times_eq_value[OF wu] value'_Cons)
  moreover have "derivative nd2 2 (op_times nd2 2 un3 ?u ?v) 0 = Inr 4"
    unfolding r by (simp add: op_times_eq_derivative[OF wu] value'_Cons sz)
  moreover have "derivative nd2 2 (op_times nd2 2 un3 ?u ?v) 1 = Inr 3"
    unfolding r by (simp add: op_times_eq_derivative[OF wu] value'_Cons sz)
  ultimately show "\<exists>u v. createVariable nd2 2 un1 3 0 = Inr u \<and> createVariable nd2 2 un2 4 1 = Inr v
        \<and> value' (op_times nd2 2 un3 u v) = 12
        \<and> derivative nd2 2 (op_times nd2 2 un3 u v) 0 = Inr 4
        \<and> derivative nd2 2 (op_times nd2 2 un3 u v) 1 = Inr 3"
    using u v by blast
qed

theorem product_rule_witness:
  "well_formed 2 0 \<lparr>data' = [2, 3, 5 :: int]\<rparr> \<and> well_formed 2 0 \<lparr>data' = [7, 11, 13 :: int]\<rparr>
   \<and> well_formed 2 0 \<lparr>data' = [0, 0, 0 :: int]\<rparr> \<and> well_formed 2 2 \<lparr>data' = [9, 9, 9 :: real]\<rparr>
   \<and> derivative 2 0 \<lparr>data' = [2, 3, 5 :: int]\<rparr> 1 = Inr 5
   \<and> derivative 2 0 \<lparr>data' = [7, 11, 13 :: int]\<rparr> 1 = Inr 13
   \<and> value' (op_times_eq 2 0 \<lparr>data' = [2, 3, 5 :: int]\<rparr> \<lparr>data' = [7, 11, 13]\<rparr>) = 14
   \<and> derivative 2 0 (op_times_eq 2 0 \<lparr>data' = [2, 3, 5 :: int]\<rparr> \<lparr>data' = [7, 11, 13]\<rparr>) 1
       = Inr 61
   \<and> op_times 2 0 \<lparr>data' = [0, 0, 0]\<rparr> \<lparr>data' = [2, 3, 5 :: int]\<rparr> \<lparr>data' = [7, 11, 13]\<rparr>
       = op_times_eq 2 0 \<lparr>data' = [2, 3, 5 :: int]\<rparr> \<lparr>data' = [7, 11, 13]\<rparr>"
proof -
  let ?a = "\<lparr>data' = [2, 3, 5 :: int]\<rparr>" and ?b = "\<lparr>data' = [7, 11, 13 :: int]\<rparr>"
  let ?z = "\<lparr>data' = [0, 0, 0 :: int]\<rparr>" and ?r = "\<lparr>data' = [9, 9, 9 :: real]\<rparr>"
  have h1: "well_formed 2 0 ?a" and h2: "well_formed 2 0 ?b" and h3: "well_formed 2 0 ?z" and h4: "well_formed 2 2 ?r"
    by (simp_all add: well_formed_def length'_def size'_def)
  have h7: "(2::int) = -1 \<or> (2::int) = 2" by simp
  have da: "derivative 2 0 ?a 1 = Inr 5" and db: "derivative 2 0 ?b 1 = Inr 13"
    by (simp_all add: derivative_def size'_def dstart'_def)
  have va: "value' ?a = 2" and vb: "value' ?b = 7" by (simp_all add: value'_Cons)
  note p = product_rule[OF h1 h2 h3 h4 h4 h4 h7]
  from p have "value' (op_times_eq 2 0 ?a ?b) = 14" by (simp add: va vb)
  moreover from p da db
  have "derivative 2 0 (op_times_eq 2 0 ?a ?b) 1 = Inr (5 * value' ?b + 13 * value' ?a)"
    by blast
  then have "derivative 2 0 (op_times_eq 2 0 ?a ?b) 1 = Inr 61" by (simp add: va vb)
  moreover from p have "op_times 2 0 ?z ?a ?b = op_times_eq 2 0 ?a ?b" by blast
  ultimately show ?thesis using h1 h2 h3 h4 da db by blast
qed

text \<open>
  C2. \<^verbatim>\<open>operator/=\<close> between Evaluations is the quotient rule through
  \<open>inv_v = 1 / other.value()\<close> and \<open>u_scaled = this.value() * inv_v * inv_v\<close>, both
  taken before any write: the new value is \<open>this.value() * inv_v\<close> and derivative \<open>i\<close> is
  \<open>d_u[i] * inv_v - d_v[i] * u_scaled\<close>, in both renderings of the template;
  \<^verbatim>\<open>operator/\<close> is the same on a copy. For \<open>u = variable(3, 0)\<close> and
  \<open>v = variable(4, 1)\<close> with two derivatives over the reals, \<open>u / v\<close> has value \<open>0.75\<close>
  and derivatives \<open>0.25\<close> and \<open>-0.1875\<close>.
\<close>

theorem quotient_rule:
  fixes this other uninit :: "'a::{one,minus,times,inverse} Evaluation"
    and un1 un2 un3 :: "real Evaluation"
  assumes "well_formed numDerivs N this" and "well_formed numDerivs N other" and "well_formed numDerivs N uninit"
    and "well_formed nd2 2 un1" and "well_formed nd2 2 un2" and "well_formed nd2 2 un3" and "nd2 = -1 \<or> nd2 = 2"
    and "inv_v = 1 / value' other" and "u_scaled = value' this * inv_v * inv_v"
  shows "value' (op_div_eq numDerivs N this other) = value' this * inv_v
   \<and> (\<forall>i du dv. derivative numDerivs N this i = Inr du
                 \<and> derivative numDerivs N other i = Inr dv
        \<longrightarrow> derivative numDerivs N (op_div_eq numDerivs N this other) i
              = Inr (du * inv_v - dv * u_scaled))
   \<and> op_div numDerivs N uninit this other = op_div_eq numDerivs N this other
   \<and> (\<exists>u v. createVariable nd2 2 un1 3 0 = Inr u \<and> createVariable nd2 2 un2 4 1 = Inr v
        \<and> value' (op_div nd2 2 un3 u v) = 0.75
        \<and> derivative nd2 2 (op_div nd2 2 un3 u v) 0 = Inr 0.25
        \<and> derivative nd2 2 (op_div nd2 2 un3 u v) 1 = Inr (- 0.1875))"
proof (intro conjI)
  show "value' (op_div_eq numDerivs N this other) = value' this * inv_v"
    unfolding assms(8) using assms(1) by (rule op_div_eq_value)
  show "\<forall>i du dv. derivative numDerivs N this i = Inr du
                 \<and> derivative numDerivs N other i = Inr dv
        \<longrightarrow> derivative numDerivs N (op_div_eq numDerivs N this other) i
              = Inr (du * inv_v - dv * u_scaled)"
    unfolding assms(9) assms(8)
    using assms(1) by (auto simp: op_div_eq_derivative derivative_Inr)
  show "op_div numDerivs N uninit this other = op_div_eq numDerivs N this other"
    using assms(1,3) by (simp add: op_div_def Evaluation_copy_id)
  have sz: "size' nd2 2 = 2" using assms(7) by (auto simp: size'_def)
  let ?u = "\<lparr>data' = [3, 1, 0 :: real]\<rparr>" and ?v = "\<lparr>data' = [4, 0, 1 :: real]\<rparr>"
  have rep: "replicate (size' nd2 2) (0::real) = [0, 0]"
    unfolding sz by (simp add: numeral_2_eq_2)
  have k0: "(0::int) \<le> 0" "(0::int) < int (size' nd2 2)"
    and k1: "(0::int) \<le> 1" "(1::int) < int (size' nd2 2)"
    unfolding sz by simp_all
  have u: "createVariable nd2 2 un1 3 0 = Inr ?u"
    unfolding createVariable_data[OF assms(4) k0] rep by simp
  have v: "createVariable nd2 2 un2 4 1 = Inr ?v"
    unfolding createVariable_data[OF assms(5) k1] rep by simp
  have wu: "well_formed nd2 2 ?u" and wv: "well_formed nd2 2 ?v" by (simp_all add: well_formed_def length'_def sz)
  have r: "op_div nd2 2 un3 ?u ?v = op_div_eq nd2 2 ?u ?v"
    using wu assms(6) by (simp add: op_div_def Evaluation_copy_id)
  have "value' (op_div nd2 2 un3 ?u ?v) = 0.75"
    unfolding r by (simp add: op_div_eq_value[OF wu] value'_Cons)
  moreover have "derivative nd2 2 (op_div nd2 2 un3 ?u ?v) 0 = Inr 0.25"
    unfolding r by (simp add: op_div_eq_derivative[OF wu] value'_Cons sz)
  moreover have "derivative nd2 2 (op_div nd2 2 un3 ?u ?v) 1 = Inr (- 0.1875)"
    unfolding r by (simp add: op_div_eq_derivative[OF wu] value'_Cons sz)
  ultimately show "\<exists>u v. createVariable nd2 2 un1 3 0 = Inr u \<and> createVariable nd2 2 un2 4 1 = Inr v
        \<and> value' (op_div nd2 2 un3 u v) = 0.75
        \<and> derivative nd2 2 (op_div nd2 2 un3 u v) 0 = Inr 0.25
        \<and> derivative nd2 2 (op_div nd2 2 un3 u v) 1 = Inr (- 0.1875)"
    using u v by blast
qed

theorem quotient_rule_witness:
  "well_formed (-1) 2 \<lparr>data' = [1, 2, 3 :: real]\<rparr> \<and> well_formed (-1) 2 \<lparr>data' = [2, 5, 7 :: real]\<rparr>
   \<and> well_formed (-1) 2 \<lparr>data' = [9, 9, 9 :: real]\<rparr>
   \<and> derivative (-1) 2 \<lparr>data' = [1, 2, 3 :: real]\<rparr> 1 = Inr 3
   \<and> derivative (-1) 2 \<lparr>data' = [2, 5, 7 :: real]\<rparr> 1 = Inr 7
   \<and> value' (op_div_eq (-1) 2 \<lparr>data' = [1, 2, 3 :: real]\<rparr> \<lparr>data' = [2, 5, 7]\<rparr>) = 1 / 2
   \<and> derivative (-1) 2 (op_div_eq (-1) 2 \<lparr>data' = [1, 2, 3 :: real]\<rparr> \<lparr>data' = [2, 5, 7]\<rparr>) 1
       = Inr (- 1 / 4)
   \<and> op_div (-1) 2 \<lparr>data' = [9, 9, 9]\<rparr> \<lparr>data' = [1, 2, 3 :: real]\<rparr> \<lparr>data' = [2, 5, 7]\<rparr>
       = op_div_eq (-1) 2 \<lparr>data' = [1, 2, 3 :: real]\<rparr> \<lparr>data' = [2, 5, 7]\<rparr>"
proof -
  let ?a = "\<lparr>data' = [1, 2, 3 :: real]\<rparr>" and ?b = "\<lparr>data' = [2, 5, 7 :: real]\<rparr>"
  let ?r = "\<lparr>data' = [9, 9, 9 :: real]\<rparr>"
  have h1: "well_formed (-1) 2 ?a" and h2: "well_formed (-1) 2 ?b" and h3: "well_formed (-1) 2 ?r"
    by (simp_all add: well_formed_def length'_def size'_def)
  have h7: "(-1::int) = -1 \<or> (-1::int) = 2" by simp
  have da: "derivative (-1) 2 ?a 1 = Inr 3" and db: "derivative (-1) 2 ?b 1 = Inr 7"
    by (simp_all add: derivative_def size'_def dstart'_def)
  have va: "value' ?a = 1" and vb: "value' ?b = 2" by (simp_all add: value'_Cons)
  note p = quotient_rule[OF h1 h2 h3 h3 h3 h3 h7 refl refl]
  from p have "value' (op_div_eq (-1) 2 ?a ?b) = 1 / 2" by (simp add: va vb)
  moreover from p da db
  have "derivative (-1) 2 (op_div_eq (-1) 2 ?a ?b) 1
          = Inr (3 * (1 / value' ?b) - 7 * (value' ?a * (1 / value' ?b) * (1 / value' ?b)))"
    by blast
  then have "derivative (-1) 2 (op_div_eq (-1) 2 ?a ?b) 1 = Inr (- 1 / 4)"
    by (simp add: va vb)
  moreover from p have "op_div (-1) 2 ?r ?a ?b = op_div_eq (-1) 2 ?a ?b" by blast
  ultimately show ?thesis using h1 h2 h3 da db by blast
qed

text \<open>
  C3. For every \<open>numDerivs\<close> that the generator's loop \<^verbatim>\<open>range(1, maxDerivs + 1)\<close> visits
  and every input with \<^verbatim>\<open>length_\<close> slots, each operation of the unrolled specialization
  returns what the same operation of the generic class with \<open>numDerivs\<close> derivatives
  returns: constructors, \<^verbatim>\<open>clearDerivatives\<close>, \<^verbatim>\<open>copyDerivatives\<close>, the compound
  assignments, \<^verbatim>\<open>divide\<close>, the binary operators, unary minus, the assignments,
  \<^verbatim>\<open>operator==\<close> and \<^verbatim>\<open>operator!=\<close>, the accessors and the free operators. The scalar
  operations obey no law here (the sort is syntactic), so the two results are the same
  expression in the scalars slot by slot: the unrolling keeps the order of the
  operations. For \<^verbatim>\<open>operator*=\<close> with a scalar this includes a scalar that is a slot of the
  object itself. \<^verbatim>\<open>operator+=\<close> and \<^verbatim>\<open>operator-=\<close> with a scalar, \<^verbatim>\<open>setValue\<close>, \<^verbatim>\<open>value\<close> and
  the ordering comparisons are one text in both renderings and one definition here.
\<close>

theorem unrolled_equals_generic:
  fixes this other uninit :: "'a::{zero,one,plus,minus,uminus,times,inverse} Evaluation"
  assumes "numDerivs \<in> set (py_range 1 (maxDerivs + 1))"
    and "well_formed numDerivs N this" and "well_formed numDerivs N other" and "well_formed numDerivs N uninit"
  shows "(well_formed numDerivs N this \<longleftrightarrow> well_formed (-1) (nat numDerivs) this)
   \<and> (Evaluation_default numDerivs N :: 'a Evaluation) = Evaluation_default (-1) (nat numDerivs)
   \<and> Evaluation_copy numDerivs N uninit other = Evaluation_copy (-1) (nat numDerivs) uninit other
   \<and> Evaluation_const numDerivs N uninit c = Evaluation_const (-1) (nat numDerivs) uninit c
   \<and> Evaluation_var numDerivs N uninit c k = Evaluation_var (-1) (nat numDerivs) uninit c k
   \<and> createVariable numDerivs N uninit c k = createVariable (-1) (nat numDerivs) uninit c k
   \<and> createConstant numDerivs N uninit c = createConstant (-1) (nat numDerivs) uninit c
   \<and> clearDerivatives numDerivs N this = clearDerivatives (-1) (nat numDerivs) this
   \<and> copyDerivatives numDerivs N this other = copyDerivatives (-1) (nat numDerivs) this other
   \<and> op_plus_eq numDerivs N this other = op_plus_eq (-1) (nat numDerivs) this other
   \<and> op_minus_eq numDerivs N this other = op_minus_eq (-1) (nat numDerivs) this other
   \<and> op_times_eq numDerivs N this other = op_times_eq (-1) (nat numDerivs) this other
   \<and> op_times_eq_scalar numDerivs N this r = op_times_eq_scalar (-1) (nat numDerivs) this r
   \<and> op_div_eq numDerivs N this other = op_div_eq (-1) (nat numDerivs) this other
   \<and> op_div_eq_scalar numDerivs N this c = op_div_eq_scalar (-1) (nat numDerivs) this c
   \<and> divide' numDerivs N c other = divide' (-1) (nat numDerivs) c other
   \<and> op_plus numDerivs N uninit this other = op_plus (-1) (nat numDerivs) uninit this other
   \<and> op_plus_scalar numDerivs N uninit this c = op_plus_scalar (-1) (nat numDerivs) uninit this c
   \<and> op_minus numDerivs N uninit this other = op_minus (-1) (nat numDerivs) uninit this other
   \<and> op_minus_scalar numDerivs N uninit this c = op_minus_scalar (-1) (nat numDerivs) uninit this c
   \<and> op_neg numDerivs N this = op_neg (-1) (nat numDerivs) this
   \<and> op_times numDerivs N uninit this other = op_times (-1) (nat numDerivs) uninit this other
   \<and> op_times_scalar numDerivs N uninit this c = op_times_scalar (-1) (nat numDerivs) uninit this c
   \<and> op_div numDerivs N uninit this other = op_div (-1) (nat numDerivs) uninit this other
   \<and> op_div_scalar numDerivs N uninit this c = op_div_scalar (-1) (nat numDerivs) uninit this c
   \<and> op_assign_scalar numDerivs N this c = op_assign_scalar (-1) (nat numDerivs) this c
   \<and> op_assign numDerivs N this other = op_assign (-1) (nat numDerivs) this other
   \<and> op_eq numDerivs N this other = op_eq (-1) (nat numDerivs) this other
   \<and> op_neq numDerivs N this other = op_neq (-1) (nat numDerivs) this other
   \<and> derivative numDerivs N this k = derivative (-1) (nat numDerivs) this k
   \<and> setDerivative numDerivs N this k c = setDerivative (-1) (nat numDerivs) this k c
   \<and> scalar_plus numDerivs N uninit c other = scalar_plus (-1) (nat numDerivs) uninit c other
   \<and> scalar_minus numDerivs N uninit c other = scalar_minus (-1) (nat numDerivs) uninit c other
   \<and> scalar_div numDerivs N c other = scalar_div (-1) (nat numDerivs) c other
   \<and> scalar_times numDerivs N uninit c other = scalar_times (-1) (nat numDerivs) uninit c other"
proof -
  from assms(1) have nn: "0 \<le> numDerivs" by (simp add: py_range_set)
  note cp = Evaluation_copy_unrolled[OF nn assms(4)]
  have c1: "(well_formed numDerivs N this \<longleftrightarrow> well_formed (-1) (nat numDerivs) this)"
    by (rule well_formed_unrolled[OF nn])
  have c2: "(Evaluation_default numDerivs N :: 'a Evaluation) = Evaluation_default (-1) (nat numDerivs)"
    by (rule Evaluation_default_unrolled[OF nn])
  have c3: "Evaluation_copy numDerivs N uninit other = Evaluation_copy (-1) (nat numDerivs) uninit other"
    by (rule cp[OF assms(3)])
  have c4: "Evaluation_const numDerivs N uninit c = Evaluation_const (-1) (nat numDerivs) uninit c"
    by (simp only: Evaluation_const_def clearDerivatives_unrolled[OF nn])
  have c5: "Evaluation_var numDerivs N uninit c k = Evaluation_var (-1) (nat numDerivs) uninit c k"
    by (rule Evaluation_var_unrolled[OF nn])
  have c6: "createVariable numDerivs N uninit c k = createVariable (-1) (nat numDerivs) uninit c k"
    by (simp only: createVariable_def Evaluation_var_unrolled[OF nn])
  have c7: "createConstant numDerivs N uninit c = createConstant (-1) (nat numDerivs) uninit c"
    by (simp only: createConstant_def Evaluation_const_def clearDerivatives_unrolled[OF nn])
  have c8: "clearDerivatives numDerivs N this = clearDerivatives (-1) (nat numDerivs) this"
    by (rule clearDerivatives_unrolled[OF nn])
  have c9: "copyDerivatives numDerivs N this other = copyDerivatives (-1) (nat numDerivs) this other"
    by (rule copyDerivatives_unrolled[OF nn])
  have c10: "op_plus_eq numDerivs N this other = op_plus_eq (-1) (nat numDerivs) this other"
    by (rule op_plus_eq_unrolled[OF nn])
  have c11: "op_minus_eq numDerivs N this other = op_minus_eq (-1) (nat numDerivs) this other"
    by (rule op_minus_eq_unrolled[OF nn])
  have c12: "op_times_eq numDerivs N this other = op_times_eq (-1) (nat numDerivs) this other"
    by (rule op_times_eq_unrolled[OF nn])
  have c13: "op_times_eq_scalar numDerivs N this r = op_times_eq_scalar (-1) (nat numDerivs) this r"
    by (rule op_times_eq_scalar_unrolled[OF nn])
  have c14: "op_div_eq numDerivs N this other = op_div_eq (-1) (nat numDerivs) this other"
    by (rule op_div_eq_unrolled[OF nn])
  have c15: "op_div_eq_scalar numDerivs N this c = op_div_eq_scalar (-1) (nat numDerivs) this c"
    by (rule op_div_eq_scalar_unrolled[OF nn])
  have c16: "divide' numDerivs N c other = divide' (-1) (nat numDerivs) c other"
    by (rule divide'_unrolled[OF nn])
  have c17: "op_plus numDerivs N uninit this other = op_plus (-1) (nat numDerivs) uninit this other"
    by (simp only: op_plus_def cp[OF assms(2)] op_plus_eq_unrolled[OF nn])
  have c18: "op_plus_scalar numDerivs N uninit this c = op_plus_scalar (-1) (nat numDerivs) uninit this c"
    by (simp only: op_plus_scalar_def cp[OF assms(2)])
  have c19: "op_minus numDerivs N uninit this other = op_minus (-1) (nat numDerivs) uninit this other"
    by (simp only: op_minus_def cp[OF assms(2)] op_minus_eq_unrolled[OF nn])
  have c20: "op_minus_scalar numDerivs N uninit this c = op_minus_scalar (-1) (nat numDerivs) uninit this c"
    by (simp only: op_minus_scalar_def cp[OF assms(2)])
  have c21: "op_neg numDerivs N this = op_neg (-1) (nat numDerivs) this"
    by (rule op_neg_unrolled[OF nn])
  have c22: "op_times numDerivs N uninit this other = op_times (-1) (nat numDerivs) uninit this other"
    by (simp only: op_times_def cp[OF assms(2)] op_times_eq_unrolled[OF nn])
  have c23: "op_times_scalar numDerivs N uninit this c = op_times_scalar (-1) (nat numDerivs) uninit this c"
    by (simp only: op_times_scalar_def cp[OF assms(2)] op_times_eq_scalar_unrolled[OF nn])
  have c24: "op_div numDerivs N uninit this other = op_div (-1) (nat numDerivs) uninit this other"
    by (simp only: op_div_def cp[OF assms(2)] op_div_eq_unrolled[OF nn])
  have c25: "op_div_scalar numDerivs N uninit this c = op_div_scalar (-1) (nat numDerivs) uninit this c"
    by (simp only: op_div_scalar_def cp[OF assms(2)] op_div_eq_scalar_unrolled[OF nn])
  have c26: "op_assign_scalar numDerivs N this c = op_assign_scalar (-1) (nat numDerivs) this c"
    by (simp only: op_assign_scalar_def clearDerivatives_unrolled[OF nn])
  have c27: "op_assign numDerivs N this other = op_assign (-1) (nat numDerivs) this other"
    by (rule op_assign_unrolled[OF nn])
  have c28: "op_eq numDerivs N this other = op_eq (-1) (nat numDerivs) this other"
    by (rule op_eq_unrolled[OF nn])
  have c29: "op_neq numDerivs N this other = op_neq (-1) (nat numDerivs) this other"
    by (simp only: op_neq_def op_eq_unrolled[OF nn])
  have c30: "derivative numDerivs N this k = derivative (-1) (nat numDerivs) this k"
    by (rule derivative_unrolled[OF nn])
  have c31: "setDerivative numDerivs N this k c = setDerivative (-1) (nat numDerivs) this k c"
    by (rule setDerivative_unrolled[OF nn])
  have c32: "scalar_plus numDerivs N uninit c other = scalar_plus (-1) (nat numDerivs) uninit c other"
    by (simp only: scalar_plus_def cp[OF assms(3)])
  have c33: "scalar_minus numDerivs N uninit c other = scalar_minus (-1) (nat numDerivs) uninit c other"
    by (simp only: scalar_minus_def Evaluation_const_def clearDerivatives_unrolled[OF nn] op_minus_eq_unrolled[OF nn])
  have c34: "scalar_div numDerivs N c other = scalar_div (-1) (nat numDerivs) c other"
    by (simp only: scalar_div_def divide'_unrolled[OF nn])
  have c35: "scalar_times numDerivs N uninit c other = scalar_times (-1) (nat numDerivs) uninit c other"
    by (simp only: scalar_times_def cp[OF assms(3)] op_times_eq_scalar_unrolled[OF nn])
  show ?thesis
    by (intro conjI) (rule c1 c2 c3 c4 c5 c6 c7 c8 c9 c10 c11 c12 c13 c14 c15 c16 c17 c18 c19 c20 c21 c22 c23 c24 c25 c26 c27 c28 c29 c30 c31 c32 c33 c34 c35)+
qed

theorem unrolled_equals_generic_witness:
  "(2::int) \<in> set (py_range 1 (12 + 1))
   \<and> well_formed 2 0 \<lparr>data' = [2, 3, 5 :: rat]\<rparr> \<and> well_formed 2 0 \<lparr>data' = [7, 11, 13 :: rat]\<rparr>
   \<and> well_formed 2 0 \<lparr>data' = [9, 9, 9 :: rat]\<rparr>
   \<and> op_times_eq 2 0 \<lparr>data' = [2, 3, 5 :: rat]\<rparr> \<lparr>data' = [7, 11, 13]\<rparr>
       = op_times_eq (-1) 2 \<lparr>data' = [2, 3, 5 :: rat]\<rparr> \<lparr>data' = [7, 11, 13]\<rparr>
   \<and> op_times_eq (-1) 2 \<lparr>data' = [2, 3, 5 :: rat]\<rparr> \<lparr>data' = [7, 11, 13]\<rparr>
       = \<lparr>data' = [14, 43, 61]\<rparr>
   \<and> op_div 2 0 \<lparr>data' = [9, 9, 9]\<rparr> \<lparr>data' = [2, 3, 5 :: rat]\<rparr> \<lparr>data' = [7, 11, 13]\<rparr>
       = op_div (-1) 2 \<lparr>data' = [9, 9, 9]\<rparr> \<lparr>data' = [2, 3, 5 :: rat]\<rparr> \<lparr>data' = [7, 11, 13]\<rparr>
   \<and> Evaluation_copy 2 0 \<lparr>data' = [9, 9, 9]\<rparr> \<lparr>data' = [7, 11, 13 :: rat]\<rparr>
       = Evaluation_copy (-1) 2 \<lparr>data' = [9, 9, 9]\<rparr> \<lparr>data' = [7, 11, 13 :: rat]\<rparr>
   \<and> op_times_eq_scalar 2 0 \<lparr>data' = [2, 3, 5 :: rat]\<rparr> (Slot 0)
       = op_times_eq_scalar (-1) 2 \<lparr>data' = [2, 3, 5 :: rat]\<rparr> (Slot 0)
   \<and> op_times_eq_scalar (-1) 2 \<lparr>data' = [2, 3, 5 :: rat]\<rparr> (Slot 0)
       = \<lparr>data' = [4, 12, 20]\<rparr>
   \<and> op_times_eq_scalar (-1) 2 \<lparr>data' = [2, 3, 5 :: rat]\<rparr> (Outside 2)
       = \<lparr>data' = [4, 6, 10]\<rparr>"
proof -
  let ?a = "\<lparr>data' = [2, 3, 5 :: rat]\<rparr>" and ?b = "\<lparr>data' = [7, 11, 13 :: rat]\<rparr>"
  let ?u = "\<lparr>data' = [9, 9, 9 :: rat]\<rparr>"
  have h0: "(2::int) \<in> set (py_range 1 (12 + 1))" by (simp add: py_range_set)
  have h1: "well_formed 2 0 ?a" and h2: "well_formed 2 0 ?b" and h3: "well_formed 2 0 ?u"
    by (simp_all add: well_formed_def length'_def size'_def)
  have n: "nat 2 = 2" by simp
  note p = unrolled_equals_generic[OF h0 h1 h2 h3, unfolded n]
  from p have "op_times_eq 2 0 ?a ?b = op_times_eq (-1) 2 ?a ?b" by blast
  moreover have "op_times_eq (-1) 2 ?a ?b = \<lparr>data' = [14, 43, 61]\<rparr>" by code_simp
  moreover from p have "op_div 2 0 ?u ?a ?b = op_div (-1) 2 ?u ?a ?b" by blast
  moreover from p have "Evaluation_copy 2 0 ?u ?b = Evaluation_copy (-1) 2 ?u ?b" by blast
  moreover from p
  have "op_times_eq_scalar 2 0 ?a (Slot 0) = op_times_eq_scalar (-1) 2 ?a (Slot 0)" by blast
  moreover have "op_times_eq_scalar (-1) 2 ?a (Slot 0) = \<lparr>data' = [4, 12, 20]\<rparr>"
    by code_simp
  moreover have "op_times_eq_scalar (-1) 2 ?a (Outside 2) = \<lparr>data' = [4, 6, 10]\<rparr>"
    by code_simp
  ultimately show ?thesis using h0 h1 h2 h3 by blast
qed

text \<open>
  C4. For \<open>0 \<le> k < size\<close>, \<^verbatim>\<open>createVariable(v, k)\<close>, which is the constructor
  \<^verbatim>\<open>Evaluation(v, k)\<close>, returns an Evaluation with value \<open>v\<close>, derivative \<open>k\<close> equal to
  \<open>1\<close> and every other derivative equal to \<open>0\<close>, whatever the storage held before; for
  any other \<open>k\<close> the \<^verbatim>\<open>assert\<close> fails and no Evaluation is returned.
\<close>

theorem variable_unit_vector:
  fixes uninit :: "'a::{zero,one} Evaluation"
  assumes "well_formed numDerivs N uninit"
  shows "(0 \<le> k \<and> k < int (size' numDerivs N) \<longrightarrow>
          (\<exists>e. createVariable numDerivs N uninit v k = Inr e
               \<and> Evaluation_var numDerivs N uninit v k = Inr e
               \<and> well_formed numDerivs N e
               \<and> value' e = v
               \<and> derivative numDerivs N e k = Inr 1
               \<and> (\<forall>j. 0 \<le> j \<and> j < int (size' numDerivs N) \<and> j \<noteq> k
                      \<longrightarrow> derivative numDerivs N e j = Inr 0)))
       \<and> (\<not> (0 \<le> k \<and> k < int (size' numDerivs N)) \<longrightarrow>
            createVariable numDerivs N uninit v k = Inl AssertionFailed
            \<and> Evaluation_var numDerivs N uninit v k = Inl AssertionFailed)"
proof (intro conjI impI)
  assume k: "0 \<le> k \<and> k < int (size' numDerivs N)"
  let ?e = "\<lparr>data' = (v # replicate (size' numDerivs N) 0)[1 + nat k := 1]\<rparr>"
  have c: "createVariable numDerivs N uninit v k = Inr ?e"
    using createVariable_data[OF assms, of k v] k by simp
  then have c': "Evaluation_var numDerivs N uninit v k = Inr ?e"
    by (simp add: createVariable_def)
  have w: "well_formed numDerivs N ?e" by (simp add: well_formed_def length'_def)
  have val: "value' ?e = v" by (simp add: value'_data)
  have dk: "derivative numDerivs N ?e k = Inr 1"
    using k derivative_update_unit[of k "size' numDerivs N" k v 0 1]
    by (simp add: derivative_Inr)
  have dj: "\<forall>j. 0 \<le> j \<and> j < int (size' numDerivs N) \<and> j \<noteq> k
                      \<longrightarrow> derivative numDerivs N ?e j = Inr 0"
    using k derivative_update_unit[of k "size' numDerivs N" _ v 0 1]
    by (simp add: derivative_Inr)
  from c c' w val dk dj
  show "\<exists>e. createVariable numDerivs N uninit v k = Inr e
               \<and> Evaluation_var numDerivs N uninit v k = Inr e
               \<and> well_formed numDerivs N e
               \<and> value' e = v
               \<and> derivative numDerivs N e k = Inr 1
               \<and> (\<forall>j. 0 \<le> j \<and> j < int (size' numDerivs N) \<and> j \<noteq> k
                      \<longrightarrow> derivative numDerivs N e j = Inr 0)"
    by blast
next
  assume "\<not> (0 \<le> k \<and> k < int (size' numDerivs N))"
  then show "createVariable numDerivs N uninit v k = Inl AssertionFailed"
    and "Evaluation_var numDerivs N uninit v k = Inl AssertionFailed"
    by (auto simp: createVariable_def Evaluation_var_def)
qed

theorem variable_unit_vector_witness:
  "well_formed 3 0 \<lparr>data' = [5, 6, 7, 8 :: int]\<rparr> \<and> (0::int) \<le> 1 \<and> 1 < int (size' 3 0)
   \<and> (0::int) \<le> 2 \<and> 2 < int (size' 3 0) \<and> (2::int) \<noteq> 1
   \<and> \<not> (0 \<le> (3::int) \<and> 3 < int (size' 3 0))
   \<and> (\<exists>e. createVariable 3 0 \<lparr>data' = [5, 6, 7, 8 :: int]\<rparr> 42 1 = Inr e
        \<and> value' e = 42 \<and> derivative 3 0 e 1 = Inr 1 \<and> derivative 3 0 e 2 = Inr 0)
   \<and> createVariable 3 0 \<lparr>data' = [5, 6, 7, 8 :: int]\<rparr> 42 3 = Inl AssertionFailed"
proof -
  let ?u = "\<lparr>data' = [5, 6, 7, 8 :: int]\<rparr>"
  have h: "well_formed 3 0 ?u" by (simp add: well_formed_def length'_def size'_def)
  have k: "(0::int) \<le> 1 \<and> 1 < int (size' 3 0)" by (simp add: size'_def)
  have j: "(0::int) \<le> 2 \<and> 2 < int (size' 3 0) \<and> (2::int) \<noteq> 1" by (simp add: size'_def)
  have o: "\<not> (0 \<le> (3::int) \<and> 3 < int (size' 3 0))" by (simp add: size'_def)
  from variable_unit_vector[OF h, of 1 42] k j
  have "\<exists>e. createVariable 3 0 ?u 42 1 = Inr e
        \<and> value' e = 42 \<and> derivative 3 0 e 1 = Inr 1 \<and> derivative 3 0 e 2 = Inr 0"
    by blast
  moreover from variable_unit_vector[OF h, of 3 42] o
  have "createVariable 3 0 ?u 42 3 = Inl AssertionFailed" by blast
  ultimately show ?thesis using h k j o by blast
qed

text \<open>
  C5. The static \<^verbatim>\<open>divide(1, x)\<close> and the operator form \<^verbatim>\<open>1 / x\<close> (scalar over
  Evaluation) return the same Evaluation: the same value and the same derivative at
  every index. The value is \<open>1 * (1 / x.value())\<close> and derivative \<open>i\<close> is
  \<open>(- value) * (1 / x.value()) * d_x[i]\<close>. Both sides are the same expressions in the
  scalars, for every \<open>x\<close> and scalars with no law. No conjunct goes through
  \<^verbatim>\<open>operator==\<close>: on floating-point scalars it answers false as soon as a slot of the
  result is not a number.
\<close>

theorem divide_one_is_reciprocal:
  fixes x :: "'a::{zero,one,uminus,times,inverse} Evaluation"
  shows "scalar_div numDerivs N 1 x = divide' numDerivs N 1 x
   \<and> value' (scalar_div numDerivs N 1 x) = value' (divide' numDerivs N 1 x)
   \<and> (\<forall>i. derivative numDerivs N (scalar_div numDerivs N 1 x) i
            = derivative numDerivs N (divide' numDerivs N 1 x) i)
   \<and> well_formed numDerivs N (divide' numDerivs N 1 x)
   \<and> value' (divide' numDerivs N 1 x) = 1 * (1 / value' x)
   \<and> (\<forall>i dx. derivative numDerivs N x i = Inr dx \<longrightarrow>
         derivative numDerivs N (divide' numDerivs N 1 x) i
           = Inr ((- (1 * (1 / value' x))) * (1 / value' x) * dx))"
proof (intro conjI)
  show e: "scalar_div numDerivs N 1 x = divide' numDerivs N 1 x"
    by (simp add: scalar_div_def)
  show "value' (scalar_div numDerivs N 1 x) = value' (divide' numDerivs N 1 x)"
    unfolding e by simp
  show "\<forall>i. derivative numDerivs N (scalar_div numDerivs N 1 x) i
            = derivative numDerivs N (divide' numDerivs N 1 x) i"
    unfolding e by simp
  show "well_formed numDerivs N (divide' numDerivs N 1 x)"
    by (rule divide'_wf)
  show "value' (divide' numDerivs N 1 x) = 1 * (1 / value' x)"
    by (rule divide'_value)
  show "\<forall>i dx. derivative numDerivs N x i = Inr dx \<longrightarrow>
         derivative numDerivs N (divide' numDerivs N 1 x) i
           = Inr ((- (1 * (1 / value' x))) * (1 / value' x) * dx)"
    by (auto simp: divide'_derivative derivative_Inr)
qed

theorem divide_one_is_reciprocal_witness:
  "derivative 2 0 \<lparr>data' = [2, 3, 5 :: real]\<rparr> 1 = Inr 5
   \<and> scalar_div 2 0 1 \<lparr>data' = [2, 3, 5 :: real]\<rparr>
        = divide' 2 0 1 \<lparr>data' = [2, 3, 5 :: real]\<rparr>
   \<and> value' (scalar_div 2 0 1 \<lparr>data' = [2, 3, 5 :: real]\<rparr>) = 1 / 2
   \<and> derivative 2 0 (scalar_div 2 0 1 \<lparr>data' = [2, 3, 5 :: real]\<rparr>) 1 = Inr (- 5 / 4)
   \<and> derivative 2 0 (divide' 2 0 1 \<lparr>data' = [2, 3, 5 :: real]\<rparr>) 1 = Inr (- 5 / 4)"
proof -
  let ?x = "\<lparr>data' = [2, 3, 5 :: real]\<rparr>"
  have d: "derivative 2 0 ?x 1 = Inr 5" by (simp add: derivative_def size'_def dstart'_def)
  have v: "value' ?x = 2" by (simp add: value'_Cons)
  note p = divide_one_is_reciprocal[of 2 0 ?x]
  from p have e: "scalar_div 2 0 1 ?x = divide' 2 0 1 ?x" by blast
  from p have "value' (divide' 2 0 1 ?x) = 1 * (1 / value' ?x)" by blast
  then have val: "value' (scalar_div 2 0 1 ?x) = 1 / 2" unfolding e by (simp add: v)
  from p d have "derivative 2 0 (divide' 2 0 1 ?x) 1
       = Inr ((- (1 * (1 / value' ?x))) * (1 / value' ?x) * 5)" by blast
  then have dd: "derivative 2 0 (divide' 2 0 1 ?x) 1 = Inr (- 5 / 4)" by (simp add: v)
  then have ds: "derivative 2 0 (scalar_div 2 0 1 ?x) 1 = Inr (- 5 / 4)" unfolding e .
  from d e val ds dd show ?thesis by blast
qed

text \<open>
  C6. Assigning a scalar \<open>c\<close> to an Evaluation sets the value to \<open>c\<close> and every derivative
  to \<open>0\<close>; the result is the same whatever the object held before.
\<close>

theorem assign_scalar_resets:
  assumes "well_formed numDerivs N this"
  shows "value' (op_assign_scalar numDerivs N this c) = c
   \<and> (\<forall>i. 0 \<le> i \<and> i < int (size' numDerivs N) \<longrightarrow>
          derivative numDerivs N (op_assign_scalar numDerivs N this c) i = Inr 0)
   \<and> (\<forall>that. well_formed numDerivs N that \<longrightarrow>
          op_assign_scalar numDerivs N that c = op_assign_scalar numDerivs N this c)"
  using assms by (simp add: op_assign_scalar_data value'_Cons derivative_const)

theorem assign_scalar_resets_witness:
  "well_formed (-1) 2 \<lparr>data' = [5, 6, 7 :: int]\<rparr> \<and> (0::int) \<le> 1 \<and> 1 < int (size' (-1) 2)
   \<and> well_formed (-1) 2 \<lparr>data' = [1, 2, 3 :: int]\<rparr>
   \<and> value' (op_assign_scalar (-1) 2 \<lparr>data' = [5, 6, 7 :: int]\<rparr> 9) = 9
   \<and> derivative (-1) 2 (op_assign_scalar (-1) 2 \<lparr>data' = [5, 6, 7 :: int]\<rparr> 9) 1 = Inr 0
   \<and> op_assign_scalar (-1) 2 \<lparr>data' = [1, 2, 3 :: int]\<rparr> 9
        = op_assign_scalar (-1) 2 \<lparr>data' = [5, 6, 7 :: int]\<rparr> 9"
proof -
  have h1: "well_formed (-1) 2 \<lparr>data' = [5, 6, 7 :: int]\<rparr>" by (simp add: well_formed_def length'_def size'_def)
  have h2: "(0::int) \<le> 1 \<and> 1 < int (size' (-1) 2)" by (simp add: size'_def)
  have h3: "well_formed (-1) 2 \<lparr>data' = [1, 2, 3 :: int]\<rparr>" by (simp add: well_formed_def length'_def size'_def)
  from assign_scalar_resets[OF h1, where c=9] h1 h2 h3
  show ?thesis by blast
qed

text \<open>
  C7. The ordering operators between two Evaluations read the values only: each is the
  scalars' comparison of the two values, so any two pairs with the same values compare
  the same way, whatever their derivatives. Two Evaluations with equal values and a
  derivative that differs satisfy \<open>\<le>\<close> and \<open>\<ge>\<close>, not \<open><\<close> and not \<open>>\<close>, and
  \<^verbatim>\<open>operator==\<close> between them is false. The first two parts hold for scalars with no
  law; the last needs a preorder, with HOL's equality.
\<close>

theorem ordering_by_value_only:
  fixes a b :: "'a::preorder Evaluation" and c d c' d' :: "'b::ord Evaluation"
  shows "(op_lt c d \<longleftrightarrow> value' c < value' d)
   \<and> (op_gt c d \<longleftrightarrow> value' c > value' d)
   \<and> (op_le c d \<longleftrightarrow> value' c \<le> value' d)
   \<and> (op_ge c d \<longleftrightarrow> value' c \<ge> value' d)
   \<and> (value' c' = value' c \<and> value' d' = value' d \<longrightarrow>
         op_lt c' d' = op_lt c d \<and> op_gt c' d' = op_gt c d
         \<and> op_le c' d' = op_le c d \<and> op_ge c' d' = op_ge c d)
   \<and> (well_formed numDerivs N a \<and> well_formed numDerivs N b
        \<and> value' a = value' b
        \<and> (\<exists>i. derivative numDerivs N a i \<noteq> derivative numDerivs N b i) \<longrightarrow>
         op_le a b \<and> op_ge a b \<and> \<not> op_lt a b \<and> \<not> op_gt a b
         \<and> \<not> op_eq numDerivs N a b \<and> op_neq numDerivs N a b)"
proof (intro conjI impI)
  show "op_lt c d \<longleftrightarrow> value' c < value' d" by (simp add: op_lt_def)
  show "op_gt c d \<longleftrightarrow> value' c > value' d" by (simp add: op_gt_def)
  show "op_le c d \<longleftrightarrow> value' c \<le> value' d" by (simp add: op_le_def)
  show "op_ge c d \<longleftrightarrow> value' c \<ge> value' d" by (simp add: op_ge_def)
next
  assume v: "value' c' = value' c \<and> value' d' = value' d"
  then show "op_lt c' d' = op_lt c d" by (simp add: op_lt_def)
  from v show "op_gt c' d' = op_gt c d" by (simp add: op_gt_def)
  from v show "op_le c' d' = op_le c d" by (simp add: op_le_def)
  from v show "op_ge c' d' = op_ge c d" by (simp add: op_ge_def)
next
  assume h: "well_formed numDerivs N a \<and> well_formed numDerivs N b
        \<and> value' a = value' b
        \<and> (\<exists>i. derivative numDerivs N a i \<noteq> derivative numDerivs N b i)"
  then have "a \<noteq> b" by auto
  with h have ne: "\<not> op_eq numDerivs N a b" by (simp add: op_eq_iff)
  from h show "op_le a b" by (simp add: op_le_def)
  from h show "op_ge a b" by (simp add: op_ge_def)
  from h show "\<not> op_lt a b" by (simp add: op_lt_def)
  from h show "\<not> op_gt a b" by (simp add: op_gt_def)
  from ne show "\<not> op_eq numDerivs N a b" .
  from ne show "op_neq numDerivs N a b" by (simp add: op_neq_def)
qed

theorem ordering_by_value_only_witness:
  "well_formed (-1) 2 \<lparr>data' = [2, 3, 5 :: int]\<rparr>
   \<and> well_formed (-1) 2 \<lparr>data' = [2, 3, 7 :: int]\<rparr>
   \<and> value' \<lparr>data' = [2, 3, 5 :: int]\<rparr> = value' \<lparr>data' = [2, 3, 7 :: int]\<rparr>
   \<and> derivative (-1) 2 \<lparr>data' = [2, 3, 5 :: int]\<rparr> 1
        \<noteq> derivative (-1) 2 \<lparr>data' = [2, 3, 7 :: int]\<rparr> 1
   \<and> op_le \<lparr>data' = [2, 3, 5 :: int]\<rparr> \<lparr>data' = [2, 3, 7]\<rparr>
   \<and> op_ge \<lparr>data' = [2, 3, 5 :: int]\<rparr> \<lparr>data' = [2, 3, 7]\<rparr>
   \<and> \<not> op_lt \<lparr>data' = [2, 3, 5 :: int]\<rparr> \<lparr>data' = [2, 3, 7]\<rparr>
   \<and> \<not> op_gt \<lparr>data' = [2, 3, 5 :: int]\<rparr> \<lparr>data' = [2, 3, 7]\<rparr>
   \<and> \<not> op_eq (-1) 2 \<lparr>data' = [2, 3, 5 :: int]\<rparr> \<lparr>data' = [2, 3, 7]\<rparr>
   \<and> value' \<lparr>data' = [2, 9, 9 :: int]\<rparr> = value' \<lparr>data' = [2, 3, 5 :: int]\<rparr>
   \<and> value' \<lparr>data' = [4, 0, 0 :: int]\<rparr> = value' \<lparr>data' = [4, 3, 5 :: int]\<rparr>
   \<and> op_lt \<lparr>data' = [2, 3, 5 :: int]\<rparr> \<lparr>data' = [4, 3, 5]\<rparr>
   \<and> op_lt \<lparr>data' = [2, 9, 9 :: int]\<rparr> \<lparr>data' = [4, 0, 0]\<rparr>
   \<and> \<not> op_gt \<lparr>data' = [2, 3, 5 :: int]\<rparr> \<lparr>data' = [4, 3, 5]\<rparr>
   \<and> \<not> op_gt \<lparr>data' = [2, 9, 9 :: int]\<rparr> \<lparr>data' = [4, 0, 0]\<rparr>
   \<and> op_le \<lparr>data' = [2, 3, 5 :: int]\<rparr> \<lparr>data' = [4, 3, 5]\<rparr>
   \<and> \<not> op_ge \<lparr>data' = [2, 9, 9 :: int]\<rparr> \<lparr>data' = [4, 0, 0]\<rparr>
   \<and> \<not> op_le \<lparr>data' = [4, 3, 5 :: int]\<rparr> \<lparr>data' = [2, 3, 5]\<rparr>"
proof -
  let ?a = "\<lparr>data' = [2, 3, 5 :: int]\<rparr>" and ?b = "\<lparr>data' = [2, 3, 7 :: int]\<rparr>"
  let ?c = "\<lparr>data' = [4, 3, 5 :: int]\<rparr>"
  let ?a' = "\<lparr>data' = [2, 9, 9 :: int]\<rparr>" and ?c' = "\<lparr>data' = [4, 0, 0 :: int]\<rparr>"
  have h1: "well_formed (-1) 2 ?a" and h2: "well_formed (-1) 2 ?b"
    by (simp_all add: well_formed_def length'_def size'_def)
  have h3: "value' ?a = value' ?b" by (simp add: value'_Cons)
  have d: "derivative (-1) 2 ?a 1 \<noteq> derivative (-1) 2 ?b 1"
    by (simp add: derivative_def size'_def dstart'_def)
  then have h4: "\<exists>i. derivative (-1) 2 ?a i \<noteq> derivative (-1) 2 ?b i" by blast
  have va: "value' ?a = 2" and vc: "value' ?c = 4" by (simp_all add: value'_Cons)
  have e1: "value' ?a' = value' ?a" and e2: "value' ?c' = value' ?c"
    by (simp_all add: value'_Cons)
  note p = ordering_by_value_only[where a="?a" and b="?b" and numDerivs="-1" and N=2
      and c="?a" and d="?c" and c'="?a'" and d'="?c'"]
  note q = ordering_by_value_only[where a="?a" and b="?b" and numDerivs="-1" and N=2
      and c="?c" and d="?a" and c'="?c" and d'="?a"]
  from p h1 h2 h3 h4
  have eqv: "op_le ?a ?b \<and> op_ge ?a ?b \<and> \<not> op_lt ?a ?b \<and> \<not> op_gt ?a ?b
             \<and> \<not> op_eq (-1) 2 ?a ?b"
    by blast
  from p have lt: "op_lt ?a ?c" and gt: "\<not> op_gt ?a ?c" and le: "op_le ?a ?c"
    and ge: "\<not> op_ge ?a ?c"
    by (simp_all add: va vc)
  from p e1 e2 have same: "op_lt ?a' ?c' = op_lt ?a ?c \<and> op_gt ?a' ?c' = op_gt ?a ?c
      \<and> op_ge ?a' ?c' = op_ge ?a ?c" by blast
  from q have nle: "\<not> op_le ?c ?a" by (simp add: va vc)
  from eqv lt gt le ge same nle h1 h2 h3 d e1 e2 show ?thesis by blast
qed

text \<open>
  C8. The free operators with the scalar \<open>a\<close> on the left of an Evaluation \<open>b\<close>:
  \<open>a + b\<close> is \<open>b + a\<close> (the value is \<open>b.value() + a\<close>, the derivatives are those of
  \<open>b\<close>); \<open>a - b\<close> has value \<open>a - b.value()\<close> and derivative \<open>i\<close> equal to
  \<open>- b.derivative(i)\<close>; \<open>a * b\<close> is \<open>b * a\<close>, every slot of \<open>b\<close> times \<open>a\<close>;
  \<open>a / b\<close> is \<^verbatim>\<open>divide(a, b)\<close>. The code
  computes the derivatives of \<open>a - b\<close> as \<open>0 - b.derivative(i)\<close>, which is
  \<open>- b.derivative(i)\<close> in any additive group, the sort of this theorem.
\<close>

theorem scalar_left_operators:
  fixes b uninit :: "'a::{group_add,one,times,inverse} Evaluation"
  assumes "well_formed numDerivs N uninit" and "well_formed numDerivs N b"
  shows "scalar_plus numDerivs N uninit a b = op_plus_scalar numDerivs N uninit b a
   \<and> value' (scalar_plus numDerivs N uninit a b) = value' b + a
   \<and> (\<forall>i. derivative numDerivs N (scalar_plus numDerivs N uninit a b) i
            = derivative numDerivs N b i)
   \<and> value' (scalar_minus numDerivs N uninit a b) = a - value' b
   \<and> (\<forall>i db. derivative numDerivs N b i = Inr db \<longrightarrow>
         derivative numDerivs N (scalar_minus numDerivs N uninit a b) i = Inr (- db))
   \<and> scalar_times numDerivs N uninit a b = op_times_scalar numDerivs N uninit b a
   \<and> value' (scalar_times numDerivs N uninit a b) = value' b * a
   \<and> (\<forall>i db. derivative numDerivs N b i = Inr db \<longrightarrow>
         derivative numDerivs N (scalar_times numDerivs N uninit a b) i = Inr (db * a))
   \<and> scalar_div numDerivs N a b = divide' numDerivs N a b"
proof (intro conjI)
  have l: "0 < length (data' b)" using assms(2) by (simp add: well_formed_def length'_def)
  show "scalar_plus numDerivs N uninit a b = op_plus_scalar numDerivs N uninit b a"
    by (simp add: scalar_plus_def op_plus_scalar_def)
  have p: "scalar_plus numDerivs N uninit a b = \<lparr>data' = (data' b)[0 := value' b + a]\<rparr>"
    using assms by (simp add: scalar_plus_def Evaluation_copy_id op_plus_eq_scalar_data)
  show "value' (scalar_plus numDerivs N uninit a b) = value' b + a"
    unfolding p using l by (simp add: value'_data)
  show "\<forall>i. derivative numDerivs N (scalar_plus numDerivs N uninit a b) i
            = derivative numDerivs N b i"
    unfolding p by (simp add: derivative_def dstart'_def)
  show "value' (scalar_minus numDerivs N uninit a b) = a - value' b"
    using assms(1) by (rule scalar_minus_value)
  show "\<forall>i db. derivative numDerivs N b i = Inr db \<longrightarrow>
         derivative numDerivs N (scalar_minus numDerivs N uninit a b) i = Inr (- db)"
    using assms(1) by (auto simp: scalar_minus_derivative derivative_Inr)
  show "scalar_times numDerivs N uninit a b = op_times_scalar numDerivs N uninit b a"
    by (simp add: scalar_times_def op_times_scalar_def)
  show "value' (scalar_times numDerivs N uninit a b) = value' b * a"
    using assms by (rule scalar_times_value)
  show "\<forall>i db. derivative numDerivs N b i = Inr db \<longrightarrow>
         derivative numDerivs N (scalar_times numDerivs N uninit a b) i = Inr (db * a)"
    using assms by (auto simp: scalar_times_derivative derivative_Inr)
  show "scalar_div numDerivs N a b = divide' numDerivs N a b"
    by (simp add: scalar_div_def)
qed

theorem scalar_left_operators_witness:
  "well_formed 2 0 \<lparr>data' = [9, 9, 9 :: real]\<rparr> \<and> well_formed 2 0 \<lparr>data' = [2, 3, 5 :: real]\<rparr>
   \<and> derivative 2 0 \<lparr>data' = [2, 3, 5 :: real]\<rparr> 1 = Inr 5
   \<and> value' (scalar_plus 2 0 \<lparr>data' = [9, 9, 9]\<rparr> 10 \<lparr>data' = [2, 3, 5 :: real]\<rparr>) = 12
   \<and> derivative 2 0 (scalar_plus 2 0 \<lparr>data' = [9, 9, 9]\<rparr> 10 \<lparr>data' = [2, 3, 5 :: real]\<rparr>) 1
        = Inr 5
   \<and> value' (scalar_minus 2 0 \<lparr>data' = [9, 9, 9]\<rparr> 10 \<lparr>data' = [2, 3, 5 :: real]\<rparr>) = 8
   \<and> derivative 2 0 (scalar_minus 2 0 \<lparr>data' = [9, 9, 9]\<rparr> 10 \<lparr>data' = [2, 3, 5 :: real]\<rparr>) 1
        = Inr (- 5)
   \<and> scalar_times 2 0 \<lparr>data' = [9, 9, 9]\<rparr> 10 \<lparr>data' = [2, 3, 5 :: real]\<rparr>
        = op_times_scalar 2 0 \<lparr>data' = [9, 9, 9]\<rparr> \<lparr>data' = [2, 3, 5 :: real]\<rparr> 10
   \<and> value' (scalar_times 2 0 \<lparr>data' = [9, 9, 9]\<rparr> 10 \<lparr>data' = [2, 3, 5 :: real]\<rparr>) = 20
   \<and> derivative 2 0 (scalar_times 2 0 \<lparr>data' = [9, 9, 9]\<rparr> 10 \<lparr>data' = [2, 3, 5 :: real]\<rparr>) 1
        = Inr 50
   \<and> scalar_div 2 0 10 \<lparr>data' = [2, 3, 5 :: real]\<rparr>
        = divide' 2 0 10 \<lparr>data' = [2, 3, 5 :: real]\<rparr>"
proof -
  let ?u = "\<lparr>data' = [9, 9, 9 :: real]\<rparr>" and ?b = "\<lparr>data' = [2, 3, 5 :: real]\<rparr>"
  have h1: "well_formed 2 0 ?u" and h2: "well_formed 2 0 ?b" by (simp_all add: well_formed_def length'_def size'_def)
  have d: "derivative 2 0 ?b 1 = Inr 5" by (simp add: derivative_def size'_def dstart'_def)
  have v: "value' ?b = 2" by (simp add: value'_Cons)
  note p = scalar_left_operators[OF h1 h2, of 10]
  from p have "value' (scalar_plus 2 0 ?u 10 ?b) = value' ?b + 10" by blast
  then have "value' (scalar_plus 2 0 ?u 10 ?b) = 12" by (simp add: v)
  moreover from p have "derivative 2 0 (scalar_plus 2 0 ?u 10 ?b) 1 = derivative 2 0 ?b 1"
    by blast
  with d have "derivative 2 0 (scalar_plus 2 0 ?u 10 ?b) 1 = Inr 5" by simp
  moreover from p have "value' (scalar_minus 2 0 ?u 10 ?b) = 10 - value' ?b" by blast
  then have "value' (scalar_minus 2 0 ?u 10 ?b) = 8" by (simp add: v)
  moreover from p d have "derivative 2 0 (scalar_minus 2 0 ?u 10 ?b) 1 = Inr (- 5)" by blast
  moreover from p have "scalar_times 2 0 ?u 10 ?b = op_times_scalar 2 0 ?u ?b 10" by blast
  moreover from p have "value' (scalar_times 2 0 ?u 10 ?b) = value' ?b * 10" by blast
  then have "value' (scalar_times 2 0 ?u 10 ?b) = 20" by (simp add: v)
  moreover from p d have "derivative 2 0 (scalar_times 2 0 ?u 10 ?b) 1 = Inr (5 * 10)"
    by blast
  then have "derivative 2 0 (scalar_times 2 0 ?u 10 ?b) 1 = Inr 50" by simp
  moreover from p have "scalar_div 2 0 10 ?b = divide' 2 0 10 ?b" by blast
  ultimately show ?thesis using h1 h2 d by blast
qed

text \<open>
  C9. A run whose argument parses to the bound \<open>maxDerivs\<close> and that can open its output
  files ends without error, and the files it leaves are a function of \<open>maxDerivs\<close> and of
  the script's base name: the generic file holds the rendering for \<open>numDerivs = -1\<close>, the
  file of each \<open>n\<close> from \<open>1\<close> to \<open>maxDerivs\<close> holds the rendering for \<open>n\<close>, all these
  paths are distinct, the aggregator includes the specializations in ascending order of
  \<open>n\<close>, and every other path is left as it was. Any other run with the same bound and
  base name, from any file system, writes the same content to every output file and
  prints the same lines; a second run on the result of the first changes nothing.
\<close>

theorem generator_deterministic:
  assumes "(if length (script # args) = 2 then py_int e ((script # args) ! 1) else Some 12)
             = Some maxDerivs"
    and "\<forall>p\<in>set (output_files maxDerivs). writable e p"
  shows "\<exists>s. main e (script # args) fs = (None, s)
     \<and> files s ''opm/material/densead/Evaluation.hpp''
         = Some (render_specialization e (- 1) (basename script))
     \<and> (\<forall>n\<in>set (py_range 1 (maxDerivs + 1)).
           files s (specialization_fileName n)
             = Some (render_specialization e n (basename script)))
     \<and> files s ''opm/material/densead/EvaluationSpecializations.hpp''
         = Some (render_includeSpecializations e
                   (map specialization_fileName (py_range 1 (maxDerivs + 1)))
                   (basename script))
     \<and> (\<forall>p. p \<notin> set (output_files maxDerivs) \<longrightarrow> files s p = fs p)
     \<and> distinct (output_files maxDerivs)
     \<and> sorted (py_range 1 (maxDerivs + 1))
     \<and> set (py_range 1 (maxDerivs + 1)) = {1..maxDerivs}
     \<and> (\<forall>script' args' fs'.
           basename script' = basename script
           \<and> (if length (script' # args') = 2 then py_int e ((script' # args') ! 1)
               else Some 12) = Some maxDerivs
           \<longrightarrow> (\<exists>s'. main e (script' # args') fs' = (None, s')
                  \<and> (\<forall>p\<in>set (output_files maxDerivs). files s' p = files s p)
                  \<and> stdout s' = stdout s \<and> fileNames s' = fileNames s))
     \<and> main e (script # args) (files s) = (None, s)"
proof -
  let ?g = "''opm/material/densead/Evaluation.hpp''"
  let ?a = "''opm/material/densead/EvaluationSpecializations.hpp''"
  let ?ns = "py_range 1 (maxDerivs + 1)"
  let ?k = specialization_fileName
  let ?v = "\<lambda>n. render_specialization e n (basename script)"
  let ?vg = "render_specialization e (- 1) (basename script)"
  let ?va = "render_includeSpecializations e (map ?k ?ns) (basename script)"
  let ?R = "\<lambda>f0. (fold (\<lambda>n f. f(?k n \<mapsto> ?v n)) ?ns (f0(?g \<mapsto> ?vg)))(?a \<mapsto> ?va)"
  let ?out = "''Generating generic template class''
           # map (\<lambda>n. ''Generating specialization for '' @ str_int n @ '' derivatives'') ?ns"
  let ?S = "\<lambda>f0. \<lparr>files = ?R f0, stdout = ?out, fileNames = map ?k ?ns\<rparr>"
  note ga = generic_not_aggregator
  note gs = generic_not_specialization[of "maxDerivs + 1"]
  note as = aggregator_not_specialization[of "maxDerivs + 1"]
  note inj = specialization_fileName_inj_on[of "maxDerivs + 1"]
  have run: "main e (script # args) f0 = (None, ?S f0)" for f0
    by (rule main_ok[OF assms])
  have fS: "files (?S f0) = ?R f0" for f0 by simp
  have c1: "files (?S fs) ?g = Some ?vg"
    unfolding fS by (rule layered_first[OF ga gs, where v="?v"])
  have c2: "\<forall>n\<in>set ?ns. files (?S fs) (?k n) = Some (?v n)"
  proof
    fix n assume n: "n \<in> set ?ns"
    show "files (?S fs) (?k n) = Some (?v n)"
      unfolding fS by (rule layered_middle[OF as inj n, where v="?v"])
  qed
  have c3: "files (?S fs) ?a = Some ?va"
    unfolding fS by (rule layered_last)
  have c4: "\<forall>p. p \<notin> set (output_files maxDerivs) \<longrightarrow> files (?S fs) p = fs p"
  proof (intro allI impI)
    fix p assume "p \<notin> set (output_files maxDerivs)"
    then have "p \<noteq> ?g" "p \<noteq> ?a" "p \<notin> ?k ` set ?ns"
      unfolding output_files_set by blast+
    then show "files (?S fs) p = fs p"
      unfolding fS by (rule layered_other[where v="?v"])
  qed
  have c5: "distinct (output_files maxDerivs)" by (rule output_files_distinct)
  have c6: "sorted ?ns" by (rule py_range_sorted)
  have c7: "set ?ns = {1..maxDerivs}" by (auto simp: py_range_set)
  have c8: "\<forall>script' args' fs'.
           basename script' = basename script
           \<and> (if length (script' # args') = 2 then py_int e ((script' # args') ! 1)
               else Some 12) = Some maxDerivs
           \<longrightarrow> (\<exists>s'. main e (script' # args') fs' = (None, s')
                  \<and> (\<forall>p\<in>set (output_files maxDerivs). files s' p = files (?S fs) p)
                  \<and> stdout s' = stdout (?S fs) \<and> fileNames s' = fileNames (?S fs))"
  proof (intro allI impI)
    fix script' :: string and args' :: "string list" and fs' :: "string \<rightharpoonup> string"
    assume h: "basename script' = basename script
           \<and> (if length (script' # args') = 2 then py_int e ((script' # args') ! 1)
               else Some 12) = Some maxDerivs"
    then have b: "basename script' = basename script" and
      p: "(if length (script' # args') = 2 then py_int e ((script' # args') ! 1)
               else Some 12) = Some maxDerivs" by blast+
    have run': "main e (script' # args') fs' = (None, ?S fs')"
      using main_ok[OF p assms(2), of fs'] unfolding b .
    have same: "\<forall>p\<in>set (output_files maxDerivs). files (?S fs') p = files (?S fs) p"
    proof
      fix p assume "p \<in> set (output_files maxDerivs)"
      then have "p = ?g \<or> p = ?a \<or> p \<in> ?k ` set ?ns"
        unfolding output_files_set by blast
      then show "files (?S fs') p = files (?S fs) p"
        unfolding fS by (rule layered_same[OF ga gs as inj, where v="?v"])
    qed
    have "stdout (?S fs') = stdout (?S fs)" "fileNames (?S fs') = fileNames (?S fs)"
      by simp_all
    with run' same
    show "\<exists>s'. main e (script' # args') fs' = (None, s')
                  \<and> (\<forall>p\<in>set (output_files maxDerivs). files s' p = files (?S fs) p)
                  \<and> stdout s' = stdout (?S fs) \<and> fileNames s' = fileNames (?S fs)"
      by blast
  qed
  have idem: "?R (?R fs) = ?R fs"
    by (rule layered_idem[OF ga gs as inj, where v="?v"])
  have c9: "main e (script # args) (files (?S fs)) = (None, ?S fs)"
    unfolding fS run idem ..
  from run[of fs] c1 c2 c3 c4 c5 c6 c7 c8 c9 show ?thesis by blast
qed

theorem generator_deterministic_witness:
  "(if length (''./bin/genEvalSpecializations.py'' # [''2'']) = 2
    then py_int \<lparr>render_specialization = (\<lambda>n sn. sn @ str_int n), include_head = (\<lambda>sn. sn),
       include_tail = ''#endif'', py_int = (\<lambda>a. Some 2), writable = (\<lambda>p. True)\<rparr>
           ((''./bin/genEvalSpecializations.py'' # [''2'']) ! 1)
    else Some 12) = Some 2
   \<and> list_all (writable \<lparr>render_specialization = (\<lambda>n sn. sn @ str_int n), include_head = (\<lambda>sn. sn),
       include_tail = ''#endif'', py_int = (\<lambda>a. Some 2), writable = (\<lambda>p. True)\<rparr>)
         (output_files 2)
   \<and> 2 \<in> set (py_range 1 (2 + 1))
   \<and> (\<exists>s. main \<lparr>render_specialization = (\<lambda>n sn. sn @ str_int n), include_head = (\<lambda>sn. sn),
       include_tail = ''#endif'', py_int = (\<lambda>a. Some 2), writable = (\<lambda>p. True)\<rparr>
             (''./bin/genEvalSpecializations.py'' # [''2'']) Map.empty = (None, s)
        \<and> files s ''opm/material/densead/Evaluation.hpp''
            = Some ''genEvalSpecializations.py-1''
        \<and> files s ''opm/material/densead/Evaluation2.hpp''
            = Some ''genEvalSpecializations.py2''
        \<and> files s ''opm/material/densead/EvaluationSpecializations.hpp''
            = Some (''genEvalSpecializations.py''
                    @ ''#include <opm/material/densead/Evaluation1.hpp>'' @ [CHR 0x0A]
                    @ ''#include <opm/material/densead/Evaluation2.hpp>'' @ [CHR 0x0A]
                    @ ''#endif'')
        \<and> main \<lparr>render_specialization = (\<lambda>n sn. sn @ str_int n), include_head = (\<lambda>sn. sn),
       include_tail = ''#endif'', py_int = (\<lambda>a. Some 2), writable = (\<lambda>p. True)\<rparr>
             (''./bin/genEvalSpecializations.py'' # [''2'']) (files s) = (None, s))"
proof -
  let ?e = "\<lparr>render_specialization = (\<lambda>n sn. sn @ str_int n), include_head = (\<lambda>sn. sn),
       include_tail = ''#endif'', py_int = (\<lambda>a. Some 2), writable = (\<lambda>p. True)\<rparr>"
  let ?script = "''./bin/genEvalSpecializations.py''"
  have h1: "(if length (?script # [''2'']) = 2 then py_int ?e ((?script # [''2'']) ! 1)
            else Some 12) = Some 2" by simp
  have h2: "\<forall>p\<in>set (output_files 2). writable ?e p" by simp
  have r: "py_range 1 (2 + 1) = [1, 2]" by code_simp
  have m: "2 \<in> set (py_range 1 (2 + 1))" unfolding r by simp
  have b: "basename ?script = ''genEvalSpecializations.py''" by code_simp
  have n1: "specialization_fileName 1 = ''opm/material/densead/Evaluation1.hpp''"
    by code_simp
  have n2: "specialization_fileName 2 = ''opm/material/densead/Evaluation2.hpp''"
    by code_simp
  have g: "render_specialization ?e (- 1) ''genEvalSpecializations.py''
             = ''genEvalSpecializations.py-1''" by code_simp
  have s2: "render_specialization ?e 2 ''genEvalSpecializations.py''
             = ''genEvalSpecializations.py2''" by code_simp
  have a: "render_includeSpecializations ?e
             [''opm/material/densead/Evaluation1.hpp'', ''opm/material/densead/Evaluation2.hpp'']
             ''genEvalSpecializations.py''
           = ''genEvalSpecializations.py''
             @ ''#include <opm/material/densead/Evaluation1.hpp>'' @ [CHR 0x0A]
             @ ''#include <opm/material/densead/Evaluation2.hpp>'' @ [CHR 0x0A]
             @ ''#endif''"
    by (simp add: render_includeSpecializations_def)
  from generator_deterministic[OF h1 h2, of Map.empty]
  obtain s where s: "main ?e (?script # [''2'']) Map.empty = (None, s)"
    and f1: "files s ''opm/material/densead/Evaluation.hpp''
         = Some (render_specialization ?e (- 1) (basename ?script))"
    and f2: "\<forall>n\<in>set (py_range 1 (2 + 1)).
           files s (specialization_fileName n)
             = Some (render_specialization ?e n (basename ?script))"
    and f3: "files s ''opm/material/densead/EvaluationSpecializations.hpp''
         = Some (render_includeSpecializations ?e
                   (map specialization_fileName (py_range 1 (2 + 1)))
                   (basename ?script))"
    and f4: "main ?e (?script # [''2'']) (files s) = (None, s)"
    by blast
  from f1 have k1: "files s ''opm/material/densead/Evaluation.hpp''
            = Some ''genEvalSpecializations.py-1''" unfolding b g .
  from f2 m have "files s (specialization_fileName 2)
             = Some (render_specialization ?e 2 (basename ?script))" by blast
  then have k2: "files s ''opm/material/densead/Evaluation2.hpp''
            = Some ''genEvalSpecializations.py2''" unfolding b n2 s2 .
  from f3 have k3: "files s ''opm/material/densead/EvaluationSpecializations.hpp''
            = Some (''genEvalSpecializations.py''
                    @ ''#include <opm/material/densead/Evaluation1.hpp>'' @ [CHR 0x0A]
                    @ ''#include <opm/material/densead/Evaluation2.hpp>'' @ [CHR 0x0A]
                    @ ''#endif'')"
    unfolding b r list.map n1 n2 a .
  from h2 have h2': "list_all (writable ?e) (output_files 2)"
    unfolding list_all_iff .
  from s k1 k2 k3 f4 h1 h2' m show ?thesis by blast
qed

text \<open>
  C10. A default-constructed Evaluation is all zero: its value is \<open>0\<close>, every derivative
  that \<^verbatim>\<open>derivative\<close> can read is \<open>0\<close>, its storage has \<^verbatim>\<open>length_\<close> slots, and
  \<^verbatim>\<open>operator==\<close> finds it equal to the constant \<open>0\<close> built by \<^verbatim>\<open>Evaluation(c)\<close> on any
  storage.
\<close>

theorem default_constructed_is_zero:
  "value' (Evaluation_default numDerivs N :: 'a::zero Evaluation) = 0
   \<and> (\<forall>i. 0 \<le> i \<and> i < int (size' numDerivs N) \<longrightarrow>
          derivative numDerivs N (Evaluation_default numDerivs N :: 'a Evaluation) i = Inr 0)
   \<and> well_formed numDerivs N (Evaluation_default numDerivs N :: 'a Evaluation)
   \<and> (\<forall>uninit. well_formed numDerivs N uninit \<longrightarrow>
          op_eq numDerivs N (Evaluation_default numDerivs N)
            (Evaluation_const numDerivs N uninit (0::'a)))"
proof (intro conjI allI impI)
  show "value' (Evaluation_default numDerivs N :: 'a Evaluation) = 0"
    by (simp add: Evaluation_default_data value'_Cons)
  show "well_formed numDerivs N (Evaluation_default numDerivs N :: 'a Evaluation)"
    by (simp add: Evaluation_default_data well_formed_const)
next
  fix i :: int assume "0 \<le> i \<and> i < int (size' numDerivs N)"
  then show "derivative numDerivs N (Evaluation_default numDerivs N :: 'a Evaluation) i = Inr 0"
    by (simp add: Evaluation_default_data derivative_const)
next
  fix uninit :: "'a Evaluation" assume "well_formed numDerivs N uninit"
  then have "Evaluation_const numDerivs N uninit 0 = Evaluation_default numDerivs N"
    by (simp add: Evaluation_const_data Evaluation_default_data)
  then show "op_eq numDerivs N (Evaluation_default numDerivs N)
            (Evaluation_const numDerivs N uninit (0::'a))"
    by (simp add: op_eq_iff Evaluation_default_data well_formed_const)
qed

theorem default_constructed_is_zero_witness:
  "(0::int) \<le> 1 \<and> 1 < int (size' 2 0) \<and> well_formed 2 0 \<lparr>data' = [5, 6, 7 :: int]\<rparr>
   \<and> value' (Evaluation_default 2 0 :: int Evaluation) = 0
   \<and> derivative 2 0 (Evaluation_default 2 0 :: int Evaluation) 1 = Inr 0
   \<and> op_eq 2 0 (Evaluation_default 2 0) (Evaluation_const 2 0 \<lparr>data' = [5, 6, 7 :: int]\<rparr> 0)"
proof -
  have h1: "(0::int) \<le> 1 \<and> 1 < int (size' 2 0)" by (simp add: size'_def)
  have h2: "well_formed 2 0 \<lparr>data' = [5, 6, 7 :: int]\<rparr>" by (simp add: well_formed_def length'_def size'_def)
  from default_constructed_is_zero[where numDerivs=2 and N=0 and 'a=int] h1 h2
  show ?thesis by blast
qed

end
